theory Spec2Isabelle
  imports Main "HOL-Library.Sublist"
begin

section \<open>JavaScript strings and arrays\<close>

text \<open>
  The source is TypeScript. Its strings are modelled as \<^typ>\<open>string\<close> over the ASCII
  range: \<open>trim\<close> removes the ASCII white space characters (tab, line feed, vertical
  tab, form feed, carriage return, space) and \<open>toLowerCase\<close> maps \<open>A\<close>..\<open>Z\<close> to
  \<open>a\<close>..\<open>z\<close>. Array indices and the results of \<open>findIndex\<close> are \<^typ>\<open>int\<close>, so
  that the result \<open>-1\<close> of an unsuccessful search is a value of the model. A local
  variable that the source writes with a leading underscore (\<open>_index\<close>) is written
  with a prime (\<open>index'\<close>).
\<close>

definition newline :: char where
  "newline = CHR 0x0A"

definition tab :: char where
  "tab = CHR 0x09"

definition quote :: char where
  "quote = CHR 0x27"

definition isWhiteSpace :: "char \<Rightarrow> bool" where
  "isWhiteSpace c = (c = CHR 0x09 \<or> c = CHR 0x0A \<or> c = CHR 0x0B \<or> c = CHR 0x0C
     \<or> c = CHR 0x0D \<or> c = CHR 0x20)"

definition trim :: "string \<Rightarrow> string" where
  "trim s = rev (dropWhile isWhiteSpace (rev (dropWhile isWhiteSpace s)))"

definition toLowerChar :: "char \<Rightarrow> char" where
  "toLowerChar c =
     (let n = (of_char c :: nat) in if 65 \<le> n \<and> n \<le> 90 then char_of (n + 32) else c)"

definition toLowerCase :: "string \<Rightarrow> string" where
  "toLowerCase s = map toLowerChar s"

fun startsWith :: "'a list \<Rightarrow> 'a list \<Rightarrow> bool" where
  "startsWith s [] = True"
| "startsWith [] (y # ys) = False"
| "startsWith (x # xs) (y # ys) = (x = y \<and> startsWith xs ys)"

text \<open>\<open>s.includes(t)\<close>: \<open>t\<close> occurs in \<open>s\<close> as a contiguous substring.\<close>

fun str_includes :: "'a list \<Rightarrow> 'a list \<Rightarrow> bool" where
  "str_includes [] t = (t = [])"
| "str_includes (x # xs) t = (startsWith (x # xs) t \<or> str_includes xs t)"

text \<open>\<open>s.split(c)\<close> for a separator of one character; \<open>''''.split(c)\<close> is \<open>['''']\<close>.\<close>

fun split :: "char \<Rightarrow> string \<Rightarrow> string list" where
  "split c [] = [[]]"
| "split c (x # xs) =
     (if x = c then [] # split c xs
      else (case split c xs of [] \<Rightarrow> [[x]] | y # ys \<Rightarrow> (x # y) # ys))"

text \<open>\<open>a.join(sep)\<close> on an array of strings; \<open>a.toString()\<close> is \<open>a.join(',')\<close>.\<close>

fun join :: "string \<Rightarrow> string list \<Rightarrow> string" where
  "join sep [] = []"
| "join sep [x] = x"
| "join sep (x # y # ys) = x @ sep @ join sep (y # ys)"

definition arrayToString :: "string list \<Rightarrow> string" where
  "arrayToString a = join '','' a"

text \<open>\<open>a.findIndex(p)\<close>: the index of the first element satisfying \<open>p\<close>, or \<open>-1\<close>.\<close>

fun findIndex :: "('a \<Rightarrow> bool) \<Rightarrow> 'a list \<Rightarrow> int" where
  "findIndex p [] = - 1"
| "findIndex p (x # xs) =
     (if p x then 0 else (let r = findIndex p xs in if r < 0 then - 1 else r + 1))"

section \<open>Row matching of the table handle\<close>

text \<open>
  \<open>rowValues.forEach((ele, i) => rowValues[i] = ele.trim().includes("'") ?
  ele.trim().split("'")[1] : ele.trim())\<close>. The split of a string that contains the
  quote has at least two parts, so the index \<open>1\<close> is in range.
\<close>

definition normalizeQuoted :: "string \<Rightarrow> string" where
  "normalizeQuoted ele =
     (if str_includes (trim ele) [quote] then split quote (trim ele) ! 1 else trim ele)"

text \<open>\<open>tableData.toString().split('\t').join('').split('\n')\<close>\<close>

definition splitRowData :: "string list \<Rightarrow> string list" where
  "splitRowData tableData = split newline (join [] (split tab (arrayToString tableData)))"

text \<open>The two comparisons of a cell \<open>ele\<close> with a target \<open>colData\<close>.\<close>

definition cellEquals :: "string \<Rightarrow> string \<Rightarrow> bool" where
  "cellEquals colData ele = (toLowerCase (trim ele) = trim (toLowerCase colData))"

definition cellIncludes :: "string \<Rightarrow> string \<Rightarrow> bool" where
  "cellIncludes colData ele = str_includes (toLowerCase (trim ele)) (trim (toLowerCase colData))"

text \<open>
  The callback of \<open>arr.findIndex\<close> in \<open>getMatchedRowIndex\<close> (lines 711-720): it returns
  false at the first target value that fails its test, true after the last one. In
  substring mode the test searches for a cell that does \<^emph>\<open>not\<close> include the target
  and fails when there is one.
\<close>

fun getMatchedRowIndex_rowMatches :: "bool \<Rightarrow> string list \<Rightarrow> string list \<Rightarrow> bool" where
  "getMatchedRowIndex_rowMatches exactMatch [] rowText = True"
| "getMatchedRowIndex_rowMatches exactMatch (colData # rest) rowText =
     (if exactMatch then
        (if findIndex (\<lambda>ele. cellEquals colData ele) rowText < 0 then False
         else getMatchedRowIndex_rowMatches exactMatch rest rowText)
      else
        (if findIndex (\<lambda>ele. \<not> cellIncludes colData ele) rowText \<ge> 0 then False
         else getMatchedRowIndex_rowMatches exactMatch rest rowText))"

text \<open>
  The callback in \<open>getMetaTableMatchedRowIndex\<close> (lines 776-792): the same tests, with
  a flag and a \<open>break\<close> in place of the early return.
\<close>

fun getMetaTableMatchedRowIndex_flag :: "bool \<Rightarrow> string list \<Rightarrow> string list \<Rightarrow> bool \<Rightarrow> bool" where
  "getMetaTableMatchedRowIndex_flag exactMatch [] rowText flag = flag"
| "getMetaTableMatchedRowIndex_flag exactMatch (colData # rest) rowText flag =
     (if exactMatch then
        (if findIndex (\<lambda>ele. cellEquals colData ele) rowText < 0 then False
         else getMetaTableMatchedRowIndex_flag exactMatch rest rowText flag)
      else
        (if findIndex (\<lambda>ele. \<not> cellIncludes colData ele) rowText \<ge> 0 then False
         else getMetaTableMatchedRowIndex_flag exactMatch rest rowText flag))"

definition getMetaTableMatchedRowIndex_rowMatches :: "bool \<Rightarrow> string list \<Rightarrow> string list \<Rightarrow> bool" where
  "getMetaTableMatchedRowIndex_rowMatches exactMatch rowValues rowText =
     getMetaTableMatchedRowIndex_flag exactMatch rowValues rowText True"

text \<open>
  The test of one row in \<open>getMatchedRowIndices\<close> (lines 737-750), and the callback in
  \<open>getMetaTableMatchedRowIndices\<close> (lines 834-845) and in \<open>getIndex\<close> (lines 18-28): in
  substring mode they search for a cell that contains the target and fail when there
  is none.
\<close>

fun getMatchedRowIndices_flag :: "bool \<Rightarrow> string list \<Rightarrow> string list \<Rightarrow> bool \<Rightarrow> bool" where
  "getMatchedRowIndices_flag exactMatch [] rowText flag = flag"
| "getMatchedRowIndices_flag exactMatch (colData # rest) rowText flag =
     (if exactMatch then
        (if findIndex (\<lambda>ele. cellEquals colData ele) rowText < 0 then False
         else getMatchedRowIndices_flag exactMatch rest rowText flag)
      else
        (if findIndex (\<lambda>ele. cellIncludes colData ele) rowText < 0 then False
         else getMatchedRowIndices_flag exactMatch rest rowText flag))"

fun getIndex_rowMatches :: "bool \<Rightarrow> string list \<Rightarrow> string list \<Rightarrow> bool" where
  "getIndex_rowMatches exactMatch [] rowText = True"
| "getIndex_rowMatches exactMatch (colData # rest) rowText =
     (if exactMatch then
        (if findIndex (\<lambda>ele. cellEquals colData ele) rowText < 0 then False
         else getIndex_rowMatches exactMatch rest rowText)
      else
        (if findIndex (\<lambda>ele. cellIncludes colData ele) rowText < 0 then False
         else getIndex_rowMatches exactMatch rest rowText))"

text \<open>
  The body of \<open>getMatchedRowIndex\<close> after the row texts have been read (lines 704-722):
  \<open>tableDatas\<close> holds, for each row index, the array that \<open>allInnerTexts()\<close> returned.
  Rows whose split has at most one entry are not pushed to \<open>arr\<close>.
\<close>

definition filterRows :: "string list list \<Rightarrow> string list list" where
  "filterRows tableDatas = filter (\<lambda>rowData. length rowData > 1) (map splitRowData tableDatas)"

definition getMatchedRowIndex_result :: "string list \<Rightarrow> bool \<Rightarrow> string list list \<Rightarrow> int" where
  "getMatchedRowIndex_result rowValues exactMatch tableDatas =
     (let arr = filterRows tableDatas;
          rowIndex = findIndex (getMatchedRowIndex_rowMatches exactMatch (map normalizeQuoted rowValues)) arr
      in if rowIndex \<ge> 0 then rowIndex else - 1)"

text \<open>
  The body of \<open>getMetaTableMatchedRowIndex\<close> after the row texts have been read
  (lines 764-794): the targets are only trimmed.
\<close>

definition getMetaTableMatchedRowIndex_result :: "string list \<Rightarrow> bool \<Rightarrow> string list list \<Rightarrow> int" where
  "getMetaTableMatchedRowIndex_result rowValues exactMatch tableDatas =
     (let arr = filterRows tableDatas;
          rowIndex = findIndex (getMetaTableMatchedRowIndex_rowMatches exactMatch (map trim rowValues)) arr
      in if rowIndex \<ge> 0 then rowIndex else - 1)"

text \<open>
  The scan of \<open>getMatchedRowIndices\<close> (lines 734-757). \<open>tableDatas\<close> holds, for each
  \<open>index\<close> below \<open>nRows\<close>, the array that \<open>allInnerTexts()\<close> returned for the row at
  that index. The text is split at line feeds only, no row is left out, and the
  index pushed is the loop index.
\<close>

definition getMatchedRowIndices_rowMatches :: "bool \<Rightarrow> string list \<Rightarrow> string list \<Rightarrow> bool" where
  "getMatchedRowIndices_rowMatches exactMatch rowValues row_text =
     getMatchedRowIndices_flag exactMatch rowValues (split newline (arrayToString row_text)) True"

definition getMatchedRowIndices_result :: "string list \<Rightarrow> bool \<Rightarrow> string list list \<Rightarrow> int list" where
  "getMatchedRowIndices_result rowValues exactMatch tableDatas =
     foldl (\<lambda>foundIndices index.
              if getMatchedRowIndices_rowMatches exactMatch (map normalizeQuoted rowValues) (tableDatas ! index)
              then foundIndices @ [int index] else foundIndices)
       [] [0..<length tableDatas]"

text \<open>
  The search of \<open>getMetaTableMatchedRowIndices\<close> (lines 814-854). \<open>rowCells\<close> holds
  the trimmed inner texts of the \<open>td\<close> cells of each row. The loop runs
  \<open>arr.length\<close> times; each round finds the first matching row, replaces it by the
  empty array and pushes its index.
\<close>

fun getMetaTableMatchedRowIndices_search ::
  "nat \<Rightarrow> (string list \<Rightarrow> bool) \<Rightarrow> string list list \<Rightarrow> int list \<Rightarrow> int list" where
  "getMetaTableMatchedRowIndices_search 0 matches arr foundIndices = foundIndices"
| "getMetaTableMatchedRowIndices_search (Suc n) matches arr foundIndices =
     (let row_index = findIndex matches arr in
      if row_index \<ge> 0
      then getMetaTableMatchedRowIndices_search n matches (arr[nat row_index := []]) (foundIndices @ [row_index])
      else getMetaTableMatchedRowIndices_search n matches arr foundIndices)"

definition getMetaTableMatchedRowIndices_result ::
  "string list \<Rightarrow> bool \<Rightarrow> int \<Rightarrow> string list list \<Rightarrow> int list" where
  "getMetaTableMatchedRowIndices_result rowValues exactMatch minColumnSize rowCells =
     (let arr = filter (\<lambda>arrTds. int (length arrTds) > minColumnSize) (map (map trim) rowCells)
      in getMetaTableMatchedRowIndices_search (length arr) (getIndex_rowMatches exactMatch rowValues) arr [])"

text \<open>
  The result of \<open>getHeaderColumnNumber\<close> from the header texts (lines 646-649): with
  \<open>exactMatch\<close> the trimmed texts are compared as they are, without it they are
  compared in lower case.
\<close>

definition getHeaderColumnNumber_result :: "string list \<Rightarrow> string \<Rightarrow> bool \<Rightarrow> int" where
  "getHeaderColumnNumber_result innerTextArr colName exactMatch =
     (if exactMatch then findIndex (\<lambda>ele. trim ele = trim colName) innerTextArr
      else findIndex (\<lambda>ele. toLowerCase (trim ele) = toLowerCase (trim colName)) innerTextArr)"

section \<open>The automation engine, the page registry and the handle\<close>

text \<open>
  The browser is a parameter of the model. A locator of the automation engine is a
  lazy description of elements, built from a page and a selector by the operations
  the source applies to it.
\<close>

type_synonym page = nat

datatype loc =
    PageLocator page string
  | PageLocatorHas page string loc
  | Locator loc string
  | LocatorHasText loc string string
  | LocatorHas loc string loc
  | Nth loc int
  | First loc
  | FilterHasText loc string
  | GetByText loc string bool

text \<open>
  What a call can raise: a \<open>TypeError\<close> of the JavaScript runtime (a call of a method
  that the object does not have, a property read on \<open>undefined\<close>), or an error raised
  by the engine (a timeout, an element that is not there).
\<close>

datatype error = TypeError string | EngineError string

text \<open>The awaited calls to the engine and to the helpers \<open>cssPath\<close> and \<open>xPath\<close>.\<close>

datatype call =
    WaitForTimeout page nat
  | WaitForLoadState page string
  | WaitForEvent page string
  | QuerySelector page string
  | Count loc
  | All loc
  | InnerText loc
  | AllInnerTexts loc
  | GetAttribute loc string
  | Click loc bool
  | DblClick loc bool
  | Check loc bool
  | Uncheck loc bool
  | Clear loc
  | Fill loc string bool
  | Press loc string
  | TypeText loc string "int option"
  | PressSequentially loc string "int option"
  | WaitFor loc
  | CssPath loc
  | XPath loc

text \<open>
  The answers of the browser: whether a call raises, and what the queries return.
  \<open>e_cssPath\<close> and \<open>e_xPath\<close> stand for the helpers \<open>cssPath\<close> and \<open>xPath\<close>, which the
  source calls and does not define; \<open>e_query p sel\<close> tells whether \<open>page.$(sel)\<close> is
  not null; \<open>e_popupEvent\<close> is the page delivered by \<open>waitForEvent('popup')\<close>.
\<close>

record engine =
  e_raises :: "call \<Rightarrow> error option"
  e_query :: "page \<Rightarrow> string \<Rightarrow> bool"
  e_count :: "loc \<Rightarrow> nat"
  e_all :: "loc \<Rightarrow> loc list"
  e_innerText :: "loc \<Rightarrow> string"
  e_allInnerTexts :: "loc \<Rightarrow> string list"
  e_getAttribute :: "loc \<Rightarrow> string \<Rightarrow> string option"
  e_cssPath :: "loc \<Rightarrow> string"
  e_xPath :: "loc \<Rightarrow> string"
  e_popupEvent :: page

text \<open>The object \<open>playwright\<close> (lines 916-923); \<open>None\<close> is \<open>undefined\<close>.\<close>

record registry =
  reg_page :: "page option"
  reg_popup :: "page option"
  reg_context :: "page list option"

text \<open>
  The fields of \<open>UiActions\<close> (lines 42-50). The constructor assigns neither
  \<open>page\<close>, \<open>fullXpath\<close> nor \<open>tempLocators\<close>: they are \<open>undefined\<close> (\<open>None\<close>) until a
  method assigns them.
\<close>

record handle =
  locator :: string
  page :: "page option"
  objectDescriptor :: string
  isPopupExist :: bool
  pageIndex :: int
  fullCss :: string
  fullXpath :: "string option"
  tempLocators :: "loc list option"

text \<open>
  The state a method runs in: the handle it is called on, the registry, the lines
  passed to \<open>testContext.logger.info\<close>, the lines printed by \<open>console.log\<close>, and the
  calls made so far.
\<close>

record world =
  hdl :: handle
  playwright :: registry
  log :: "string list"
  console :: "string list"
  trace :: "call list"

text \<open>
  An asynchronous method is a function from the state to a result and the state it
  leaves; an exception is the result \<open>Inl\<close>, and the state reached when it was raised
  stays.
\<close>

type_synonym 'a act = "world \<Rightarrow> (error + 'a) \<times> world"

definition ret :: "'a \<Rightarrow> 'a act" where
  "ret x = (\<lambda>w. (Inr x, w))"

definition throw :: "error \<Rightarrow> 'a act" where
  "throw e = (\<lambda>w. (Inl e, w))"

definition bnd :: "'a act \<Rightarrow> ('a \<Rightarrow> 'b act) \<Rightarrow> 'b act" where
  "bnd m f = (\<lambda>w. case m w of (Inl e, w') \<Rightarrow> (Inl e, w') | (Inr x, w') \<Rightarrow> f x w')"

definition thn :: "'a act \<Rightarrow> 'b act \<Rightarrow> 'b act" where
  "thn m n = bnd m (\<lambda>_. n)"

fun mapM :: "('a \<Rightarrow> 'b act) \<Rightarrow> 'a list \<Rightarrow> 'b list act" where
  "mapM f [] = ret []"
| "mapM f (x # xs) = bnd (f x) (\<lambda>y. bnd (mapM f xs) (\<lambda>ys. ret (y # ys)))"

definition this :: "handle act" where
  "this = (\<lambda>w. (Inr (hdl w), w))"

definition assign :: "(handle \<Rightarrow> handle) \<Rightarrow> unit act" where
  "assign f = (\<lambda>w. (Inr (), w\<lparr>hdl := f (hdl w)\<rparr>))"

text \<open>A call of a method that the class does not define.\<close>

definition notAFunction :: "string \<Rightarrow> 'a act" where
  "notAFunction name = throw (TypeError (name @ '' is not a function''))"

text \<open>An awaited call: it is recorded, and it raises when the engine says so.\<close>

definition perform :: "engine \<Rightarrow> call \<Rightarrow> unit act" where
  "perform E c = (\<lambda>w. case e_raises E c of
       Some e \<Rightarrow> (Inl e, w\<lparr>trace := trace w @ [c]\<rparr>)
     | None \<Rightarrow> (Inr (), w\<lparr>trace := trace w @ [c]\<rparr>))"

text \<open>\<open>a[i]\<close> for a number \<open>i\<close>: \<open>undefined\<close> out of range.\<close>

definition at_index :: "'a list \<Rightarrow> int \<Rightarrow> 'a option" where
  "at_index a i = (if 0 \<le> i \<and> nat i < length a then Some (a ! nat i) else None)"

text \<open>Numbers in template literals.\<close>

fun showNat :: "nat \<Rightarrow> string" where
  "showNat n = (if n < 10 then [char_of (48 + n)] else showNat (n div 10) @ [char_of (48 + n mod 10)])"

declare showNat.simps [simp del]

definition showInt :: "int \<Rightarrow> string" where
  "showInt i = (if i < 0 then CHR ''-'' # showNat (nat (- i)) else showNat (nat i))"

subsection \<open>The logger\<close>

text \<open>
  \<open>logger.info\<close>: the message goes to the logger of the test context, and to the
  console unless it contains \<open>password\<close> in any case.
\<close>

definition logger_info :: "string \<Rightarrow> unit act" where
  "logger_info msg = (\<lambda>w.
     let w1 = w\<lparr>log := log w @ [msg]\<rparr>
     in if \<not> str_includes (toLowerCase msg) ''password''
        then (Inr (), w1\<lparr>console := console w1 @ [msg]\<rparr>)
        else (Inr (), w1))"

definition console_log :: "string \<Rightarrow> unit act" where
  "console_log msg = (\<lambda>w. (Inr (), w\<lparr>console := console w @ [msg]\<rparr>))"

subsection \<open>Construction, page resolution and readiness\<close>

text \<open>The constructors (lines 57-66 and 454-456).\<close>

definition UiActions :: "string \<Rightarrow> string option \<Rightarrow> bool option \<Rightarrow> int option \<Rightarrow> handle" where
  "UiActions loc description isPopup pgIndex =
     \<lparr>locator = loc, page = None,
      objectDescriptor = (case description of None \<Rightarrow> ''object - '' | Some d \<Rightarrow> d),
      isPopupExist = (case isPopup of None \<Rightarrow> False | Some b \<Rightarrow> b),
      pageIndex = (case pgIndex of None \<Rightarrow> 0 | Some i \<Rightarrow> i),
      fullCss = loc, fullXpath = None, tempLocators = None\<rparr>"

definition UiElement :: "string \<Rightarrow> string option \<Rightarrow> bool option \<Rightarrow> int option \<Rightarrow> handle" where
  "UiElement loc description isPopup pgIndex = UiActions loc description isPopup pgIndex"

definition setPopup :: "page option \<Rightarrow> unit act" where
  "setPopup p = (\<lambda>w. (Inr (), w\<lparr>playwright := (playwright w)\<lparr>reg_popup := p\<rparr>\<rparr>))"

definition getRegistry :: "registry act" where
  "getRegistry = (\<lambda>w. (Inr (playwright w), w))"

text \<open>\<open>getPage\<close> (lines 71-85).\<close>

definition getPage :: "engine \<Rightarrow> unit act" where
  "getPage E =
     bnd this (\<lambda>h. bnd getRegistry (\<lambda>r.
       if isPopupExist h then
         thn (if reg_popup r = None then
                thn (assign (\<lambda>h. h\<lparr>page := reg_popup r\<rparr>))
                 (case reg_page r of
                    None \<Rightarrow> throw (TypeError ''playwright.page is undefined'')
                  | Some p \<Rightarrow>
                      thn (perform E (WaitForEvent p ''popup''))
                          (setPopup (Some (e_popupEvent E))))
              else ret ())
          (bnd getRegistry (\<lambda>r'. assign (\<lambda>h. h\<lparr>page := reg_popup r'\<rparr>)))
       else
         (case reg_context r of
            None \<Rightarrow> throw (TypeError ''playwright.context is undefined'')
          | Some pages \<Rightarrow> assign (\<lambda>h. h\<lparr>page := at_index pages (pageIndex h)\<rparr>))))"

text \<open>\<open>this.page\<close> as the receiver of a call.\<close>

definition thisPage :: "page act" where
  "thisPage = bnd this (\<lambda>h. case page h of
       None \<Rightarrow> throw (TypeError ''this.page is undefined'')
     | Some p \<Rightarrow> ret p)"

text \<open>
  \<open>waitTillElementToBeReady\<close> (lines 253-260); \<open>waitForLoadState()\<close> without an
  argument waits for the state \<open>load\<close>.
\<close>

definition waitTillElementToBeReady :: "engine \<Rightarrow> unit act" where
  "waitTillElementToBeReady E =
     thn (getPage E)
      (bnd thisPage (\<lambda>p.
        thn (perform E (WaitForTimeout p 10))
         (thn (perform E (WaitForLoadState p ''load''))
           (thn (perform E (WaitForLoadState p ''domcontentloaded''))
             (perform E (WaitForLoadState p ''networkidle''))))))"

text \<open>\<open>getLocator\<close> (lines 351-354) and \<open>getElement\<close> (lines 128-133).\<close>

definition getLocator :: "string act" where
  "getLocator = bnd this (\<lambda>h. ret (if fullCss h = locator h then locator h else fullCss h))"

definition getElement :: "engine \<Rightarrow> loc act" where
  "getElement E =
     thn (waitTillElementToBeReady E)
      (bnd thisPage (\<lambda>p. bnd getLocator (\<lambda>l. ret (PageLocator p l))))"

text \<open>\<open>setCssAndXpath\<close> (lines 135-139) and \<open>clearFullCssAndXPath\<close> (lines 236-241).\<close>

definition setCssAndXpath :: "engine \<Rightarrow> loc \<Rightarrow> unit act" where
  "setCssAndXpath E element =
     thn (perform E (CssPath element))
      (thn (assign (\<lambda>h. h\<lparr>fullCss := e_cssPath E element\<rparr>))
        (thn (perform E (XPath element))
          (assign (\<lambda>h. h\<lparr>fullXpath := Some (e_xPath E element)\<rparr>))))"

definition clearFullCssAndXPath :: "unit act" where
  "clearFullCssAndXPath =
     thn (assign (\<lambda>h. h\<lparr>fullCss := locator h\<rparr>))
         (assign (\<lambda>h. h\<lparr>fullXpath := Some []\<rparr>))"

text \<open>
  The source also calls \<open>this.setCssAndXPath\<close> and \<open>this.clearFullCssAndXpath\<close>.
  The class defines \<open>setCssAndXpath\<close> and \<open>clearFullCssAndXPath\<close> only, and names are
  case sensitive, so these calls raise.
\<close>

definition setCssAndXPath :: "'a \<Rightarrow> unit act" where
  "setCssAndXPath element = notAFunction ''this.setCssAndXPath''"

definition clearFullCssAndXpath :: "unit act" where
  "clearFullCssAndXpath = notAFunction ''this.clearFullCssAndXpath''"

subsection \<open>Queries\<close>

definition countOf :: "engine \<Rightarrow> loc \<Rightarrow> nat act" where
  "countOf E l = thn (perform E (Count l)) (ret (e_count E l))"

definition allOf :: "engine \<Rightarrow> loc \<Rightarrow> loc list act" where
  "allOf E l = thn (perform E (All l)) (ret (e_all E l))"

definition innerTextOf :: "engine \<Rightarrow> loc \<Rightarrow> string act" where
  "innerTextOf E l = thn (perform E (InnerText l)) (ret (e_innerText E l))"

definition allInnerTextsOf :: "engine \<Rightarrow> loc \<Rightarrow> string list act" where
  "allInnerTextsOf E l = thn (perform E (AllInnerTexts l)) (ret (e_allInnerTexts E l))"

definition getAttributeOf :: "engine \<Rightarrow> loc \<Rightarrow> string \<Rightarrow> string option act" where
  "getAttributeOf E l name = thn (perform E (GetAttribute l name)) (ret (e_getAttribute E l name))"

definition querySelector :: "engine \<Rightarrow> page \<Rightarrow> string \<Rightarrow> bool act" where
  "querySelector E p sel = thn (perform E (QuerySelector p sel)) (ret (e_query E p sel))"

subsection \<open>Narrowing operations\<close>

text \<open>\<open>contains\<close> (lines 220-226).\<close>

definition contains :: "engine \<Rightarrow> string \<Rightarrow> int option \<Rightarrow> handle act" where
  "contains E containsText index =
     (let index' = (case index of None \<Rightarrow> 0 | Some i \<Rightarrow> i) in
      bnd (getElement E) (\<lambda>element.
        thn (setCssAndXpath E (Nth (FilterHasText element containsText) index')) this))"

text \<open>\<open>hasText\<close> (lines 228-234).\<close>

definition hasText :: "engine \<Rightarrow> string \<Rightarrow> bool \<Rightarrow> int option \<Rightarrow> handle act" where
  "hasText E containsText exactMatch index =
     (let index' = (case index of None \<Rightarrow> 0 | Some i \<Rightarrow> i) in
      bnd (getElement E) (\<lambda>element.
        thn (setCssAndXpath E (Nth (GetByText element containsText exactMatch) index')) this))"

text \<open>
  \<open>find\<close> (lines 366-382). Without \<open>hasText\<close> it uses \<open>this.page\<close> as it is, with no
  page resolution of its own. With \<open>nthObj\<close> it ends in a call of
  \<open>this.setCssAndXPath\<close>.
\<close>

definition find :: "engine \<Rightarrow> string \<Rightarrow> int option \<Rightarrow> string option \<Rightarrow> int option \<Rightarrow> handle act" where
  "find E loc index hasTxt nthObj =
     (let index' = (case index of None \<Rightarrow> 0 | Some i \<Rightarrow> i);
          objIndex' = (case nthObj of None \<Rightarrow> 0 | Some i \<Rightarrow> i) in
      thn (case hasTxt of
             None \<Rightarrow> bnd thisPage (\<lambda>p. bnd getLocator (\<lambda>l.
                       setCssAndXpath E (Nth (PageLocator p (l @ '' '' @ loc)) index')))
           | Some t \<Rightarrow> bnd (getElement E) (\<lambda>element.
                       setCssAndXpath E (Nth (LocatorHasText element loc t) index')))
       (thn (case nthObj of
               None \<Rightarrow> ret ()
             | Some _ \<Rightarrow> bnd (getElement E) (\<lambda>element. setCssAndXPath (Nth element objIndex')))
          this))"

text \<open>\<open>getNth\<close> (lines 183-188) and \<open>getRow\<close> (lines 625-633) call \<open>this.setCssAndXPath\<close>.\<close>

definition getNth :: "engine \<Rightarrow> int \<Rightarrow> handle act" where
  "getNth E index =
     bnd (getElement E) (\<lambda>element. thn (setCssAndXPath (Nth element index)) this)"

definition getRow :: "engine \<Rightarrow> int \<Rightarrow> string option \<Rightarrow> handle act" where
  "getRow E index loc =
     (let locator' = (case loc of None \<Rightarrow> ''tr'' | Some l \<Rightarrow> l) in
      thn (waitTillElementToBeReady E)
       (bnd (getElement E) (\<lambda>element.
          thn (setCssAndXPath (Nth (Locator element locator') index)) this)))"

subsection \<open>Terminal actions\<close>

text \<open>\<open>click\<close> (lines 412-420) and \<open>dblClick\<close> (lines 422-430).\<close>

definition click :: "engine \<Rightarrow> int option \<Rightarrow> bool option \<Rightarrow> unit act" where
  "click E objIndex force =
     (let objIndex' = (case objIndex of None \<Rightarrow> 0 | Some i \<Rightarrow> i);
          force' = (case force of None \<Rightarrow> False | Some b \<Rightarrow> b) in
      bnd (getElement E) (\<lambda>element.
        thn (perform E (Click (Nth element objIndex') force'))
         (bnd this (\<lambda>h.
           thn (logger_info (''Clicked on the '' @ objectDescriptor h @ '' ['' @ showInt objIndex' @ '']''))
               clearFullCssAndXPath))))"

definition dblClick :: "engine \<Rightarrow> int option \<Rightarrow> bool option \<Rightarrow> unit act" where
  "dblClick E objIndex force =
     (let objIndex' = (case objIndex of None \<Rightarrow> 0 | Some i \<Rightarrow> i);
          force' = (case force of None \<Rightarrow> False | Some b \<Rightarrow> b) in
      bnd (getElement E) (\<lambda>element.
        thn (perform E (DblClick (Nth element objIndex') force'))
         (bnd this (\<lambda>h.
           thn (logger_info (''Double-clicked on the '' @ objectDescriptor h @ '' ['' @ showInt objIndex' @ '']''))
               clearFullCssAndXPath))))"

text \<open>\<open>getText\<close> (lines 262-269); the parameter defaults to \<open>-1\<close>.\<close>

definition getText :: "engine \<Rightarrow> int option \<Rightarrow> string act" where
  "getText E idx =
     (let index = (case idx of None \<Rightarrow> - 1 | Some i \<Rightarrow> i);
          index' = (if index = - 1 then 0 else index) in
      bnd (getElement E) (\<lambda>element.
        bnd (innerTextOf E (Nth element index')) (\<lambda>text.
          thn clearFullCssAndXPath
           (bnd this (\<lambda>h.
             thn (logger_info (''Getting text from '' @ objectDescriptor h))
                 (ret text))))))"

text \<open>\<open>getCount\<close> (lines 190-195) ends in a call of \<open>this.clearFullCssAndXpath\<close>.\<close>

definition getCount :: "engine \<Rightarrow> nat act" where
  "getCount E =
     bnd (getElement E) (\<lambda>element.
       bnd (countOf E element) (\<lambda>length.
         thn clearFullCssAndXpath (ret length)))"

text \<open>\<open>isExist\<close> (lines 284-293).\<close>

definition isExist :: "engine \<Rightarrow> bool act" where
  "isExist E =
     thn (getPage E)
      (thn (bnd thisPage (\<lambda>p. perform E (WaitForLoadState p ''load'')))
        (thn (bnd thisPage (\<lambda>p. perform E (WaitForLoadState p ''domcontentloaded'')))
          (thn (bnd thisPage (\<lambda>p. perform E (WaitForLoadState p ''networkidle'')))
            (thn clearFullCssAndXPath
              (bnd thisPage (\<lambda>p. bnd getLocator (\<lambda>l. querySelector E p l)))))))"

text \<open>
  The value computed for \<open>_objIndex\<close> in \<open>check\<close> and \<open>uncheck\<close> (lines 491, 508):
  \<open>options?.objIndex?.valueOf() !== undefined ? -1 : options?.objIndex\<close>, and the
  comparison \<open>_objIndex > -1\<close>, which is false for \<open>undefined\<close>.
\<close>

definition check_objIndex :: "int option \<Rightarrow> int option" where
  "check_objIndex objIndex = (if objIndex \<noteq> None then Some (- 1) else objIndex)"

definition greaterThan :: "int option \<Rightarrow> int \<Rightarrow> bool" where
  "greaterThan x n = (case x of None \<Rightarrow> False | Some i \<Rightarrow> i > n)"

definition check_obj :: "int option \<Rightarrow> loc \<Rightarrow> loc" where
  "check_obj objIndex' element =
     (if greaterThan objIndex' (- 1)
      then (case objIndex' of Some i \<Rightarrow> Nth element i | None \<Rightarrow> First element)
      else First element)"

text \<open>A value of type \<open>string | null\<close> in a condition: null and the empty string are falsy.\<close>

definition truthy :: "string option \<Rightarrow> bool" where
  "truthy v = (case v of None \<Rightarrow> False | Some s \<Rightarrow> s \<noteq> [])"

text \<open>\<open>check\<close> (lines 489-504) and \<open>uncheck\<close> (lines 506-519).\<close>

definition check :: "engine \<Rightarrow> int option \<Rightarrow> bool option \<Rightarrow> unit act" where
  "check E objIndex force =
     (let objIndex' = check_objIndex objIndex;
          force' = (case force of None \<Rightarrow> False | Some b \<Rightarrow> b) in
      thn (waitTillElementToBeReady E)
       (bnd (getElement E) (\<lambda>element.
         let obj = check_obj objIndex' element in
         bnd (getAttributeOf E obj ''disabled'') (\<lambda>flag.
           thn (if \<not> truthy flag then
                  thn (perform E (Check obj force'))
                   (bnd this (\<lambda>h. logger_info (objectDescriptor h @ '' - checked the checkbox'')))
                else
                  bnd this (\<lambda>h. logger_info (objectDescriptor h
                     @ '' - unable to check the checkbox, it'' @ [quote] @ ''s disabled'')))
            clearFullCssAndXPath))))"

definition uncheck :: "engine \<Rightarrow> int option \<Rightarrow> bool option \<Rightarrow> unit act" where
  "uncheck E objIndex force =
     (let objIndex' = check_objIndex objIndex;
          force' = (case force of None \<Rightarrow> False | Some b \<Rightarrow> b) in
      bnd (getElement E) (\<lambda>element.
        let obj = check_obj objIndex' element in
        bnd (getAttributeOf E obj ''disabled'') (\<lambda>flag.
          thn (if \<not> truthy flag then
                 thn (perform E (Uncheck obj force'))
                  (bnd this (\<lambda>h. logger_info (objectDescriptor h @ '' - unchecked the checkbox'')))
               else
                 bnd this (\<lambda>h. logger_info (objectDescriptor h
                    @ '' - unable to uncheck the checkbox, it'' @ [quote] @ ''s disabled'')))
           clearFullCssAndXPath)))"

text \<open>
  \<open>setValue\<close> (lines 521-531), \<open>type\<close> (lines 533-542) and \<open>pressSequentially\<close>
  (lines 544-553). \<open>setValue\<close> ends in a call of \<open>this.clearFullCssAndXpath\<close>. The
  delay passed on is \<open>0\<close> when the option is given and \<open>undefined\<close> when it is not.
\<close>

definition maskedValue :: "handle \<Rightarrow> string \<Rightarrow> string" where
  "maskedValue h inputString =
     (if str_includes (toLowerCase (objectDescriptor h)) ''password'' then ''******'' else inputString)"

definition pressKey :: "engine \<Rightarrow> string option \<Rightarrow> unit act" where
  "pressKey E keyPress =
     (case keyPress of
        None \<Rightarrow> ret ()
      | Some k \<Rightarrow> bnd (getElement E) (\<lambda>element. perform E (Press element k)))"

definition setValue :: "engine \<Rightarrow> string \<Rightarrow> string option \<Rightarrow> bool option \<Rightarrow> unit act" where
  "setValue E inputString keyPress force =
     (let force' = (case force of None \<Rightarrow> False | Some b \<Rightarrow> b) in
      thn (bnd (getElement E) (\<lambda>element. perform E (Clear element)))
       (thn (bnd (getElement E) (\<lambda>element. perform E (Fill element inputString force')))
         (thn (pressKey E keyPress)
           (thn (bnd this (\<lambda>h. logger_info (objectDescriptor h @ '' - set the value: ''
                    @ maskedValue h inputString)))
              clearFullCssAndXpath))))"

definition type :: "engine \<Rightarrow> string \<Rightarrow> int option \<Rightarrow> string option \<Rightarrow> unit act" where
  "type E inputString delay keyPress =
     (let delay' = (if delay \<noteq> None then Some 0 else delay) in
      thn (bnd (getElement E) (\<lambda>element. perform E (TypeText element inputString delay')))
       (thn (pressKey E keyPress)
         (thn (bnd this (\<lambda>h. logger_info (objectDescriptor h @ '' - typed the value: ''
                  @ maskedValue h inputString)))
            clearFullCssAndXPath)))"

definition pressSequentially :: "engine \<Rightarrow> string \<Rightarrow> int option \<Rightarrow> string option \<Rightarrow> unit act" where
  "pressSequentially E inputString delay keyPress =
     (let delay' = (if delay \<noteq> None then Some 0 else delay) in
      thn (bnd (getElement E) (\<lambda>element. perform E (PressSequentially element inputString delay')))
       (thn (pressKey E keyPress)
         (thn (bnd this (\<lambda>h. logger_info (objectDescriptor h @ '' - pressed sequentially: ''
                  @ maskedValue h inputString)))
            clearFullCssAndXPath)))"

text \<open>
  \<open>getAllObjects\<close> (lines 458-477). The matches are pushed to \<open>this.tempLocators\<close>,
  which no constructor or method assigns, and the handles are built from
  \<open>this.tempLocators\<close>, which no method empties.
\<close>

fun pushAll :: "loc list \<Rightarrow> unit act" where
  "pushAll [] = ret ()"
| "pushAll (l # ls) =
     bnd this (\<lambda>h. case tempLocators h of
        None \<Rightarrow> throw (TypeError ''this.tempLocators is undefined'')
      | Some t \<Rightarrow> thn (assign (\<lambda>h. h\<lparr>tempLocators := Some (t @ [l])\<rparr>)) (pushAll ls))"

definition getAllObjects :: "engine \<Rightarrow> string option \<Rightarrow> handle list act" where
  "getAllObjects E hasTxt =
     thn (case hasTxt of
            None \<Rightarrow>
              bnd (getElement E) (\<lambda>element. bnd thisPage (\<lambda>p. bnd this (\<lambda>h.
                bnd (allOf E (LocatorHas element '':scope'' (PageLocator p (locator h)))) pushAll)))
          | Some t \<Rightarrow>
              bnd (getElement E) (\<lambda>element. bnd this (\<lambda>h.
                bnd (allOf E (LocatorHasText element (locator h) t)) pushAll)))
      (bnd this (\<lambda>h. case tempLocators h of
          None \<Rightarrow> throw (TypeError ''this.tempLocators is undefined'')
        | Some locs \<Rightarrow>
            mapM (\<lambda>(l, index).
                    thn (perform E (CssPath l))
                        (ret (UiElement (e_cssPath E l)
                                (Some (objectDescriptor h @ '' ['' @ showNat index @ '']'')) None None)))
                 (zip locs [0..<length locs])))"

subsection \<open>The table handle\<close>

text \<open>\<open>getRowsLength\<close> (lines 668-674).\<close>

definition getRowsLength :: "engine \<Rightarrow> string option \<Rightarrow> nat act" where
  "getRowsLength E loc =
     (let locator' = (case loc of None \<Rightarrow> ''tr'' | Some l \<Rightarrow> l) in
      bnd (isExist E) (\<lambda>exist.
        bnd (if exist then bnd (getElement E) (\<lambda>element. countOf E (Locator element locator'))
             else ret 0) (\<lambda>length.
          thn clearFullCssAndXPath (ret length))))"

text \<open>\<open>getHeaderColumnNumber\<close> (lines 642-650); \<open>exactMatch\<close> defaults to false.\<close>

definition getHeaderColumnNumber :: "engine \<Rightarrow> string \<Rightarrow> bool option \<Rightarrow> int act" where
  "getHeaderColumnNumber E colName exactMatch =
     bnd (getElement E) (\<lambda>element.
       bnd (allInnerTextsOf E (Locator element ''th'')) (\<lambda>innerTextArr.
         thn clearFullCssAndXPath
          (ret (getHeaderColumnNumber_result innerTextArr colName
                  (case exactMatch of None \<Rightarrow> False | Some b \<Rightarrow> b)))))"

text \<open>
  Reading the rows (lines 704-706, 735, 770): every round resolves the element
  again and reads \<open>locator(_locator).nth(index).allInnerTexts()\<close>.
\<close>

definition readRow :: "engine \<Rightarrow> string \<Rightarrow> nat \<Rightarrow> string list act" where
  "readRow E locator' index =
     bnd (getElement E) (\<lambda>element. allInnerTextsOf E (Nth (Locator element locator') (int index)))"

text \<open>\<open>getMatchedRowIndex\<close> (lines 695-724): the loop runs to the number of rows.\<close>

definition getMatchedRowIndex :: "engine \<Rightarrow> string list \<Rightarrow> string option \<Rightarrow> bool option \<Rightarrow> int act" where
  "getMatchedRowIndex E rowValues loc exactMatch =
     (let locator' = (case loc of None \<Rightarrow> ''tr'' | Some l \<Rightarrow> l);
          exactMatch' = (case exactMatch of None \<Rightarrow> False | Some b \<Rightarrow> b) in
      thn (waitTillElementToBeReady E)
       (bnd (getElement E) (\<lambda>element.
         bnd (countOf E (Locator element locator')) (\<lambda>rows.
           bnd (mapM (readRow E locator') [0..<rows]) (\<lambda>tableDatas.
             thn clearFullCssAndXPath
              (ret (getMatchedRowIndex_result rowValues exactMatch' tableDatas)))))))"

text \<open>
  \<open>getMatchedRowIndices\<close> (lines 726-758): the loop runs to \<open>nRows\<close>, the number of
  elements that the handle itself matches.
\<close>

definition getMatchedRowIndices :: "engine \<Rightarrow> string list \<Rightarrow> string option \<Rightarrow> bool option \<Rightarrow> int list act" where
  "getMatchedRowIndices E rowValues loc exactMatch =
     (let locator' = (case loc of None \<Rightarrow> ''tr'' | Some l \<Rightarrow> l);
          exactMatch' = (case exactMatch of None \<Rightarrow> False | Some b \<Rightarrow> b) in
      bnd (getElement E) (\<lambda>element.
        bnd (countOf E element) (\<lambda>nRows.
          bnd (mapM (readRow E locator') [0..<nRows]) (\<lambda>tableDatas.
            thn clearFullCssAndXPath
             (ret (getMatchedRowIndices_result rowValues exactMatch' tableDatas))))))"

text \<open>\<open>getMetaTableMatchedRowIndex\<close> (lines 760-795).\<close>

definition getMetaTableMatchedRowIndex :: "engine \<Rightarrow> string list \<Rightarrow> string option \<Rightarrow> bool option \<Rightarrow> int act" where
  "getMetaTableMatchedRowIndex E rowValues loc exactMatch =
     (let locator' = (case loc of None \<Rightarrow> ''tr'' | Some l \<Rightarrow> l);
          exactMatch' = (case exactMatch of None \<Rightarrow> False | Some b \<Rightarrow> b) in
      thn (bnd (getElement E) (\<lambda>element. perform E (WaitFor (Nth (Locator element locator') 0))))
       (bnd (getElement E) (\<lambda>element.
         bnd (countOf E (Locator element locator')) (\<lambda>rows.
           bnd (mapM (readRow E locator') [0..<rows]) (\<lambda>tableDatas.
             thn clearFullCssAndXPath
              (ret (getMetaTableMatchedRowIndex_result rowValues exactMatch' tableDatas)))))))"

text \<open>
  \<open>getMetaTableMatchedRowIndices\<close> (lines 797-855): the cells of a row are the \<open>td\<close>
  elements under it. The method does not reset the handle.
\<close>

definition readCells :: "engine \<Rightarrow> loc \<Rightarrow> string list act" where
  "readCells E row = bnd (allOf E (Locator row ''td'')) (mapM (innerTextOf E))"

definition getMetaTableMatchedRowIndices ::
  "engine \<Rightarrow> string list \<Rightarrow> string option \<Rightarrow> bool option \<Rightarrow> int option \<Rightarrow> int list act" where
  "getMetaTableMatchedRowIndices E rowValues loc exactMatch minColumnSize =
     (let locator' = (case loc of None \<Rightarrow> ''tr'' | Some l \<Rightarrow> if l = [] then ''tr'' else l);
          exactMatch' = (case exactMatch of None \<Rightarrow> False | Some b \<Rightarrow> b);
          minColumnSize' = (case minColumnSize of None \<Rightarrow> 1 | Some n \<Rightarrow> n) in
      thn (console_log (''Received data: '' @ arrayToString rowValues))
       (bnd (getElement E) (\<lambda>element.
         bnd (allOf E (Locator element locator')) (\<lambda>rows.
           bnd (mapM (readCells E) rows) (\<lambda>rowCells.
             ret (getMetaTableMatchedRowIndices_result rowValues exactMatch' minColumnSize' rowCells))))))"

subsection \<open>Chains\<close>

text \<open>
  A chain is a sequence of narrowing calls followed by one terminal call, each
  awaited before the next; an exception ends the chain.
\<close>

datatype narrowing =
    ByFind string "int option" "string option" "int option"
  | ByGetNth int
  | ByContains string "int option"
  | ByHasText string bool "int option"
  | ByGetRow int "string option"

datatype terminal =
    DoClick "int option" "bool option"
  | DoDblClick "int option" "bool option"
  | DoGetText "int option"
  | DoGetCount
  | DoSetValue string "string option" "bool option"
  | DoType string "int option" "string option"
  | DoPressSequentially string "int option" "string option"
  | DoCheck "int option" "bool option"
  | DoUncheck "int option" "bool option"
  | DoIsExist

fun narrow :: "engine \<Rightarrow> narrowing \<Rightarrow> unit act" where
  "narrow E (ByFind loc index hasTxt nthObj) = thn (find E loc index hasTxt nthObj) (ret ())"
| "narrow E (ByGetNth index) = thn (getNth E index) (ret ())"
| "narrow E (ByContains containsText index) = thn (contains E containsText index) (ret ())"
| "narrow E (ByHasText containsText exactMatch index) = thn (hasText E containsText exactMatch index) (ret ())"
| "narrow E (ByGetRow index loc) = thn (getRow E index loc) (ret ())"

fun terminate :: "engine \<Rightarrow> terminal \<Rightarrow> unit act" where
  "terminate E (DoClick objIndex force) = click E objIndex force"
| "terminate E (DoDblClick objIndex force) = dblClick E objIndex force"
| "terminate E (DoGetText index) = thn (getText E index) (ret ())"
| "terminate E DoGetCount = thn (getCount E) (ret ())"
| "terminate E (DoSetValue inputString keyPress force) = setValue E inputString keyPress force"
| "terminate E (DoType inputString delay keyPress) = type E inputString delay keyPress"
| "terminate E (DoPressSequentially inputString delay keyPress) = pressSequentially E inputString delay keyPress"
| "terminate E (DoCheck objIndex force) = check E objIndex force"
| "terminate E (DoUncheck objIndex force) = uncheck E objIndex force"
| "terminate E DoIsExist = thn (isExist E) (ret ())"

fun chain :: "engine \<Rightarrow> narrowing list \<Rightarrow> terminal \<Rightarrow> unit act" where
  "chain E [] t = terminate E t"
| "chain E (n # ns) t = thn (narrow E n) (chain E ns t)"

text \<open>The terminal calls whose last step is \<open>this.clearFullCssAndXpath\<close>.\<close>

fun callsMissingClear :: "terminal \<Rightarrow> bool" where
  "callsMissingClear DoGetCount = True"
| "callsMissingClear (DoSetValue inputString keyPress force) = True"
| "callsMissingClear t = False"

subsection \<open>The wording of the specification\<close>

text \<open>
  The comparison of header texts as the specification words it: trimmed and case
  insensitive in both modes, equality in exact mode and containment otherwise.
\<close>

definition spec_getHeaderColumnNumber :: "string list \<Rightarrow> string \<Rightarrow> bool \<Rightarrow> int" where
  "spec_getHeaderColumnNumber innerTextArr colName exactMatch =
     (if exactMatch then findIndex (cellEquals colName) innerTextArr
      else findIndex (cellIncludes colName) innerTextArr)"

text \<open>
  The match of a row as the specification words it: every target value is equal to
  (exact mode) or contained in (substring mode) at least one cell.
\<close>

definition spec_rowMatches :: "bool \<Rightarrow> string list \<Rightarrow> string list \<Rightarrow> bool" where
  "spec_rowMatches exactMatch rowValues rowText =
     list_all (\<lambda>colData. list_ex (if exactMatch then cellEquals colData else cellIncludes colData) rowText)
       rowValues"

text \<open>
  The matching positions as the specification words them: positions in the sequence
  of the rows that are left after the rows of at most one cell are removed.
\<close>

definition spec_getMatchedRowIndices :: "string list \<Rightarrow> bool \<Rightarrow> string list list \<Rightarrow> int list" where
  "spec_getMatchedRowIndices rowValues exactMatch tableDatas =
     (let arr = filterRows tableDatas in
      map int (filter (\<lambda>i. spec_rowMatches exactMatch (map normalizeQuoted rowValues) (arr ! i))
                 [0..<length arr]))"

subsection \<open>Concrete pages\<close>

text \<open>
  A page on which no call raises: the selector of the handle matches \<open>roots\<close>
  elements, there are as many rows and header cells as \<open>rows\<close> and \<open>headers\<close> have
  entries, \<open>matches\<close> elements are returned by \<open>all()\<close>, and \<open>disabled\<close> is the value of
  the attribute of that name.
\<close>

definition cssOf :: "loc \<Rightarrow> string" where
  "cssOf l = (case l of Nth _ i \<Rightarrow> ''li:nth-of-type('' @ showInt (i + 1) @ '')'' | _ \<Rightarrow> ''li'')"

definition pageEngine :: "nat \<Rightarrow> string list \<Rightarrow> string list \<Rightarrow> nat \<Rightarrow> string option \<Rightarrow> engine" where
  "pageEngine roots rows headers matches disabled =
     \<lparr>e_raises = (\<lambda>c. None),
      e_query = (\<lambda>p sel. roots > 0),
      e_count = (\<lambda>l. case l of Locator _ _ \<Rightarrow> length rows | _ \<Rightarrow> roots),
      e_all = (\<lambda>l. map (\<lambda>i. Nth l (int i)) [0..<matches]),
      e_innerText = (\<lambda>l. ''text''),
      e_allInnerTexts = (\<lambda>l. case l of
           Nth (Locator _ _) i \<Rightarrow> (case at_index rows i of Some t \<Rightarrow> [t] | None \<Rightarrow> [])
         | Locator _ _ \<Rightarrow> headers
         | _ \<Rightarrow> []),
      e_getAttribute = (\<lambda>l name. disabled),
      e_cssPath = cssOf,
      e_xPath = (\<lambda>l. ''//li''),
      e_popupEvent = 1\<rparr>"

definition startWorld :: "handle \<Rightarrow> world" where
  "startWorld h =
     \<lparr>hdl = h,
      playwright = \<lparr>reg_page = Some 0, reg_popup = None, reg_context = Some [0]\<rparr>,
      log = [], console = [], trace = []\<rparr>"

text \<open>The three rows of the scenario: a header of one cell and two rows of two cells.\<close>

definition scenarioRows :: "string list" where
  "scenarioRows = [''Name'', ''Alice'' @ [newline] @ ''30'', ''Bob'' @ [newline] @ ''30'']"

subsection \<open>Pages that resolve\<close>

text \<open>
  The condition under which \<open>getPage\<close> (lines 71-85) leaves \<open>this.page\<close> defined when
  the wait for the popup does not raise: for a popup handle the popup is known or
  \<open>playwright.page\<close> is there to wait on, for the others the context is there and has
  a page at the index of the handle.
\<close>

definition pageResolves :: "world \<Rightarrow> bool" where
  "pageResolves w =
     (if isPopupExist (hdl w) then
        (case reg_popup (playwright w) of
           Some q \<Rightarrow> True
         | None \<Rightarrow> (case reg_page (playwright w) of Some p \<Rightarrow> True | None \<Rightarrow> False))
      else
        (case reg_context (playwright w) of
           None \<Rightarrow> False
         | Some pages \<Rightarrow> (case at_index pages (pageIndex (hdl w)) of Some p \<Rightarrow> True | None \<Rightarrow> False)))"

subsection \<open>Components that a method leaves as they are\<close>

text \<open>A method keeps a component of the state when no run of it changes the component.\<close>

definition keeps :: "(world \<Rightarrow> 'b) \<Rightarrow> 'a act \<Rightarrow> bool" where
  "keeps proj m = (\<forall>w. proj (snd (m w)) = proj w)"

section \<open>The string operations\<close>

lemma startsWith_prefix: "startsWith s t \<longleftrightarrow> prefix t s"
  by (induction s t rule: startsWith.induct) auto

lemma str_includes_sublist: "str_includes s t \<longleftrightarrow> sublist t s"
  by (induction s) (auto simp: startsWith_prefix sublist_Cons_right)

lemma str_includes_char: "str_includes s [c] \<longleftrightarrow> c \<in> set s"
  by (induction s) auto

lemma split_not_empty: "split c s \<noteq> []"
  by (induction s) (auto split: list.splits)

lemma length_split: "length (split c s) = Suc (length (filter (\<lambda>x. x = c) s))"
  by (induction s) (auto simp: split_not_empty split: list.splits)

lemma join_split: "join [c] (split c s) = s"
proof (induction s)
  case Nil
  then show ?case by simp
next
  case (Cons x xs)
  obtain y ys where s: "split c xs = y # ys"
    using split_not_empty [of c xs] by (cases "split c xs") auto
  with Cons show ?case by (cases ys) auto
qed

text \<open>The index \<open>1\<close> that \<open>normalizeQuoted\<close> reads is in range.\<close>

lemma split_quote_in_range: "str_includes s [quote] \<Longrightarrow> 1 < length (split quote s)"
proof -
  assume "str_includes s [quote]"
  then have "quote \<in> set s" by (simp add: str_includes_char)
  then have "filter (\<lambda>x. x = quote) s \<noteq> []" by (simp add: filter_empty_conv)
  then show ?thesis by (simp add: length_split)
qed

lemma normalizeQuoted_examples:
  "normalizeQuoted ([quote] @ ''A'') = ''A''"
  "normalizeQuoted ('' B '') = ''B''"
  "normalizeQuoted (''x'' @ [quote] @ ''A'' @ [quote] @ ''y'') = ''A''"
  by code_simp+

text \<open>
  The inner text of a table row separates the cells by tabs; such a row splits into
  one entry and is left out.
\<close>

lemma tab_separated_row_is_left_out:
  "filterRows [[''Alice'' @ [tab] @ ''30'']] = []"
  by code_simp

section \<open>Searching an array\<close>

lemma findIndex_ge: "- 1 \<le> findIndex p xs"
  by (induction xs) (auto simp: Let_def)

lemma findIndex_neg_iff: "findIndex p xs < 0 \<longleftrightarrow> \<not> list_ex p xs"
  using findIndex_ge [of p]
  by (induction xs) (auto simp: Let_def)

lemma findIndex_nonneg_iff: "0 \<le> findIndex p xs \<longleftrightarrow> list_ex p xs"
  using findIndex_neg_iff [of p xs] by linarith

lemma findIndex_none: "\<not> list_ex p xs \<Longrightarrow> findIndex p xs = - 1"
  using findIndex_ge [of p xs] findIndex_neg_iff [of p xs] by linarith

lemma findIndex_first:
  "list_ex p xs \<Longrightarrow>
     nat (findIndex p xs) < length xs \<and> p (xs ! nat (findIndex p xs)) \<and>
     (\<forall>j < nat (findIndex p xs). \<not> p (xs ! j))"
proof (induction xs)
  case Nil
  then show ?case by simp
next
  case (Cons x xs)
  show ?case
  proof (cases "p x")
    case True
    then show ?thesis by simp
  next
    case False
    with Cons.prems have ex: "list_ex p xs" by simp
    then have nn: "0 \<le> findIndex p xs" by (simp add: findIndex_nonneg_iff)
    then have eq: "nat (findIndex p (x # xs)) = Suc (nat (findIndex p xs))"
      using False by (simp add: Let_def nat_add_distrib)
    from Cons.IH [OF ex] False show ?thesis
      unfolding eq by (auto simp: less_Suc_eq_0_disj)
  qed
qed

section \<open>What the row tests decide\<close>

lemma getMatchedRowIndex_rowMatches_exact:
  "getMatchedRowIndex_rowMatches True rowValues rowText = spec_rowMatches True rowValues rowText"
  by (induction rowValues) (auto simp: findIndex_neg_iff spec_rowMatches_def)

lemma getMatchedRowIndex_rowMatches_substring:
  "getMatchedRowIndex_rowMatches False rowValues rowText
     = list_all (\<lambda>colData. list_all (cellIncludes colData) rowText) rowValues"
  by (induction rowValues) (auto simp: findIndex_nonneg_iff list_ex_iff list_all_iff)

lemma getMetaTableMatchedRowIndex_rowMatches_eq:
  "getMetaTableMatchedRowIndex_rowMatches exactMatch rowValues rowText
     = getMatchedRowIndex_rowMatches exactMatch rowValues rowText"
  unfolding getMetaTableMatchedRowIndex_rowMatches_def
  by (induction rowValues) auto

lemma getMatchedRowIndices_flag_spec:
  "getMatchedRowIndices_flag exactMatch rowValues rowText True
     = spec_rowMatches exactMatch rowValues rowText"
  by (induction rowValues) (auto simp: findIndex_neg_iff spec_rowMatches_def)

lemma getIndex_rowMatches_spec:
  "getIndex_rowMatches exactMatch rowValues rowText = spec_rowMatches exactMatch rowValues rowText"
  by (induction rowValues) (auto simp: findIndex_neg_iff spec_rowMatches_def)

text \<open>
  The index returned by \<open>getMatchedRowIndex\<close> is the position of the first row that
  passes the test among the rows of more than one cell, and \<open>-1\<close> when none passes.
\<close>

lemma getMatchedRowIndex_result_first:
  "getMatchedRowIndex_result rowValues exactMatch tableDatas =
     findIndex (getMatchedRowIndex_rowMatches exactMatch (map normalizeQuoted rowValues))
       (filterRows tableDatas)"
  using findIndex_ge [of "getMatchedRowIndex_rowMatches exactMatch (map normalizeQuoted rowValues)"
      "filterRows tableDatas"]
  by (auto simp: getMatchedRowIndex_result_def Let_def)

section \<open>Matching a row and finding a header\<close>

text \<open>
  C2 (the code departs from the claim). In substring mode \<open>getMatchedRowIndex\<close> and
  \<open>getMetaTableMatchedRowIndex\<close> reject the row with the cells \<open>Alice\<close> and \<open>30\<close> for
  the target \<open>30\<close>, although one cell contains the target, so the row is a match in
  the words of the claim; the test of \<open>getMatchedRowIndices\<close> accepts it.
\<close>

theorem C2_substring_mode_rejects_matching_row:
  "getMatchedRowIndex_rowMatches False [''30''] [''Alice'', ''30''] = False
   \<and> getMetaTableMatchedRowIndex_rowMatches False [''30''] [''Alice'', ''30''] = False
   \<and> spec_rowMatches False [''30''] [''Alice'', ''30''] = True
   \<and> getMatchedRowIndices_flag False [''30''] [''Alice'', ''30''] True = True"
  by code_simp

text \<open>
  C3 (the code departs from the claim). On the table of the scenario
  \<open>getMatchedRowIndex(["30"])\<close> in substring mode returns \<open>-1\<close>, not \<open>0\<close>: the header row
  is left out, and each of the two rows left has a cell that does not contain \<open>30\<close>.
\<close>

theorem C3_scenario_returns_minus_one:
  "filterRows (map (\<lambda>t. [t]) scenarioRows) = [[''Alice'', ''30''], [''Bob'', ''30'']]
   \<and> fst (getMatchedRowIndex (pageEngine 1 scenarioRows [] 0 None) [''30''] None (Some False)
            (startWorld (UiElement ''table'' None None None))) = Inr (- 1)"
  by code_simp

text \<open>
  C5 (counterexample to the claim as stated). With \<open>exactMatch\<close> the header \<open>Name\<close> is
  not found for the column name \<open>name\<close>, and without it the header \<open>First Name\<close> is
  not found for \<open>name\<close>; the comparison of the claim finds both at index \<open>0\<close>.
\<close>

theorem C5_counterexample:
  "getHeaderColumnNumber_result [''Name''] ''name'' True = - 1
   \<and> spec_getHeaderColumnNumber [''Name''] ''name'' True = 0
   \<and> getHeaderColumnNumber_result [''First Name''] ''name'' False = - 1
   \<and> spec_getHeaderColumnNumber [''First Name''] ''name'' False = 0"
  by code_simp

text \<open>
  C5 (amended). \<open>getHeaderColumnNumber\<close> returns \<open>-1\<close> when no header matches and
  otherwise the index of the first header that matches, where with \<open>exactMatch\<close> a
  header matches when its trimmed text equals the trimmed column name, case
  included, and without \<open>exactMatch\<close> when the two are equal after trimming and
  conversion to lower case.
\<close>

theorem C5_getHeaderColumnNumber_first_match:
  "(let P = (\<lambda>ele. if exactMatch then trim ele = trim colName
                    else toLowerCase (trim ele) = toLowerCase (trim colName));
        r = getHeaderColumnNumber_result innerTextArr colName exactMatch
    in if list_ex P innerTextArr
       then 0 \<le> r \<and> nat r < length innerTextArr \<and> P (innerTextArr ! nat r)
            \<and> (\<forall>j < nat r. \<not> P (innerTextArr ! j))
       else r = - 1)"
proof (cases exactMatch)
  case True
  then show ?thesis
    using findIndex_first [of "\<lambda>ele. trim ele = trim colName" innerTextArr]
      findIndex_none [of "\<lambda>ele. trim ele = trim colName" innerTextArr]
      findIndex_nonneg_iff [of "\<lambda>ele. trim ele = trim colName" innerTextArr]
    by (simp add: getHeaderColumnNumber_result_def Let_def)
next
  case False
  then show ?thesis
    using findIndex_first [of "\<lambda>ele. toLowerCase (trim ele) = toLowerCase (trim colName)" innerTextArr]
      findIndex_none [of "\<lambda>ele. toLowerCase (trim ele) = toLowerCase (trim colName)" innerTextArr]
      findIndex_nonneg_iff [of "\<lambda>ele. toLowerCase (trim ele) = toLowerCase (trim colName)" innerTextArr]
    by (simp add: getHeaderColumnNumber_result_def Let_def)
qed

theorem C5_getHeaderColumnNumber_witness:
  "list_ex (\<lambda>ele. toLowerCase (trim ele) = toLowerCase (trim ''age'')) [''Name'', '' Age '']
   \<and> getHeaderColumnNumber_result [''Name'', '' Age ''] ''age'' False = 1
   \<and> \<not> list_ex (\<lambda>ele. trim ele = trim ''age'') [''Name'', '' Age '']
   \<and> getHeaderColumnNumber_result [''Name'', '' Age ''] ''age'' True = - 1"
proof -
  have a: "list_ex (\<lambda>ele. toLowerCase (trim ele) = toLowerCase (trim ''age'')) [''Name'', '' Age '']"
    by code_simp
  have b: "\<not> list_ex (\<lambda>ele. trim ele = trim ''age'') [''Name'', '' Age '']"
    by code_simp
  have c: "getHeaderColumnNumber_result [''Name'', '' Age ''] ''age'' False = 1"
    by code_simp
  from b C5_getHeaderColumnNumber_first_match [of True "''age''" "[''Name'', '' Age '']"]
  have d: "getHeaderColumnNumber_result [''Name'', '' Age ''] ''age'' True = - 1"
    by (simp add: Let_def)
  from a b c d show ?thesis by blast
qed

section \<open>Running a method\<close>

lemma bnd_Inr:
  "bnd m f w = (Inr y, w') \<Longrightarrow> \<exists>x w1. m w = (Inr x, w1) \<and> f x w1 = (Inr y, w')"
  by (auto simp: bnd_def split: prod.splits sum.splits)

lemma thn_Inr:
  "thn m n w = (Inr y, w') \<Longrightarrow> \<exists>x w1. m w = (Inr x, w1) \<and> n w1 = (Inr y, w')"
  unfolding thn_def by (rule bnd_Inr)

lemma bnd_run:
  "m w = (Inr x, w1) \<Longrightarrow> bnd m f w = f x w1"
  by (simp add: bnd_def)

lemma bnd_raise:
  "m w = (Inl e, w1) \<Longrightarrow> bnd m f w = (Inl e, w1)"
  by (simp add: bnd_def)

lemma thn_run:
  "m w = (Inr x, w1) \<Longrightarrow> thn m n w = n w1"
  by (simp add: thn_def bnd_def)

lemma thn_raise:
  "m w = (Inl e, w1) \<Longrightarrow> thn m n w = (Inl e, w1)"
  by (simp add: thn_def bnd_def)

text \<open>The handle is reset: the state that \<open>clearFullCssAndXPath\<close> leaves.\<close>

lemma clearFullCssAndXPath_run:
  "clearFullCssAndXPath w =
     (Inr (), w\<lparr>hdl := (hdl w)\<lparr>fullCss := locator (hdl w), fullXpath := Some []\<rparr>\<rparr>)"
  by (simp add: clearFullCssAndXPath_def thn_def bnd_def assign_def)

lemma clearFullCssAndXpath_raises:
  "clearFullCssAndXpath w = (Inl (TypeError ''this.clearFullCssAndXpath is not a function''), w)"
  by (simp add: clearFullCssAndXpath_def notAFunction_def throw_def)

lemma setCssAndXPath_raises:
  "setCssAndXPath element w = (Inl (TypeError ''this.setCssAndXPath is not a function''), w)"
  by (simp add: setCssAndXPath_def notAFunction_def throw_def)

lemma logger_info_hdl:
  "logger_info msg w = (r, w') \<Longrightarrow> hdl w' = hdl w \<and> r = Inr ()"
  by (auto simp: logger_info_def Let_def split: if_splits)

lemma terminate_resets:
  assumes "\<not> callsMissingClear t" and "terminate E t w = (Inr u, w')"
  shows "fullCss (hdl w') = locator (hdl w') \<and> fullXpath (hdl w') = Some []"
proof (cases t)
  case (DoClick objIndex force)
  with assms(2) show ?thesis
    by (auto simp: click_def Let_def clearFullCssAndXPath_run this_def ret_def perform_def
        dest!: bnd_Inr thn_Inr logger_info_hdl split: option.splits)
next
  case (DoDblClick objIndex force)
  with assms(2) show ?thesis
    by (auto simp: dblClick_def Let_def clearFullCssAndXPath_run this_def ret_def perform_def
        dest!: bnd_Inr thn_Inr logger_info_hdl split: option.splits)
next
  case (DoGetText index)
  with assms(2) show ?thesis
    by (auto simp: getText_def Let_def clearFullCssAndXPath_run this_def ret_def perform_def
        dest!: bnd_Inr thn_Inr logger_info_hdl split: option.splits)
next
  case DoGetCount
  with assms(1) show ?thesis by simp
next
  case (DoSetValue inputString keyPress force)
  with assms(1) show ?thesis by simp
next
  case (DoType inputString delay keyPress)
  with assms(2) show ?thesis
    by (auto simp: type_def Let_def clearFullCssAndXPath_run this_def ret_def
        dest!: bnd_Inr thn_Inr logger_info_hdl)
next
  case (DoPressSequentially inputString delay keyPress)
  with assms(2) show ?thesis
    by (auto simp: pressSequentially_def Let_def clearFullCssAndXPath_run this_def ret_def
        dest!: bnd_Inr thn_Inr logger_info_hdl)
next
  case (DoCheck objIndex force)
  with assms(2) show ?thesis
    by (auto simp: check_def Let_def clearFullCssAndXPath_run this_def ret_def
        dest!: bnd_Inr thn_Inr logger_info_hdl)
next
  case (DoUncheck objIndex force)
  with assms(2) show ?thesis
    by (auto simp: uncheck_def Let_def clearFullCssAndXPath_run this_def ret_def
        dest!: bnd_Inr thn_Inr logger_info_hdl)
next
  case DoIsExist
  with assms(2) show ?thesis
    by (auto simp: isExist_def querySelector_def getLocator_def thisPage_def throw_def
        clearFullCssAndXPath_run this_def ret_def perform_def
        dest!: bnd_Inr thn_Inr split: option.splits)
qed

lemma chain_resets:
  "\<not> callsMissingClear t \<Longrightarrow> chain E ns t w = (Inr u, w') \<Longrightarrow>
     fullCss (hdl w') = locator (hdl w') \<and> fullXpath (hdl w') = Some []"
proof (induction ns arbitrary: w)
  case Nil
  then show ?case using terminate_resets [of t E w u w'] by simp
next
  case (Cons n ns)
  from Cons.prems(2) obtain x w1 where "chain E ns t w1 = (Inr u, w')"
    by (auto dest: thn_Inr)
  with Cons.IH [OF Cons.prems(1)] show ?case by blast
qed

section \<open>Frame lemmas\<close>

lemma keepsD: "keeps p m \<Longrightarrow> m w = (r, w') \<Longrightarrow> p w' = p w"
  by (auto simp: keeps_def dest: spec [of _ w])

lemma keeps_ret: "keeps p (ret x)"
  by (simp add: keeps_def ret_def)

lemma keeps_throw: "keeps p (throw e)"
  by (simp add: keeps_def throw_def)

lemma keeps_this: "keeps p this"
  by (simp add: keeps_def this_def)

lemma keeps_getRegistry: "keeps p getRegistry"
  by (simp add: keeps_def getRegistry_def)

lemma keeps_bnd: "keeps p m \<Longrightarrow> (\<And>x. keeps p (f x)) \<Longrightarrow> keeps p (bnd m f)"
  by (auto simp: keeps_def bnd_def split: prod.splits sum.splits)
    (metis snd_conv)+

lemma keeps_thn: "keeps p m \<Longrightarrow> keeps p n \<Longrightarrow> keeps p (thn m n)"
  unfolding thn_def by (rule keeps_bnd)

lemma keeps_perform: "(\<And>w t. p (w\<lparr>trace := t\<rparr>) = p w) \<Longrightarrow> keeps p (perform E c)"
  by (simp add: keeps_def perform_def split: option.splits)

lemma keeps_assign: "(\<And>w. p (w\<lparr>hdl := f (hdl w)\<rparr>) = p w) \<Longrightarrow> keeps p (assign f)"
  by (simp add: keeps_def assign_def)

lemma keeps_setPopup: "(\<And>w r. p (w\<lparr>playwright := r\<rparr>) = p w) \<Longrightarrow> keeps p (setPopup x)"
  by (simp add: keeps_def setPopup_def)

lemma keeps_notAFunction: "keeps p (notAFunction name)"
  by (simp add: notAFunction_def keeps_throw)

lemma keeps_thisPage: "keeps p thisPage"
  unfolding thisPage_def
  by (intro keeps_bnd keeps_this) (simp add: keeps_throw keeps_ret split: option.splits)

lemma keeps_getLocator: "keeps p getLocator"
  unfolding getLocator_def by (intro keeps_bnd keeps_this keeps_ret)

text \<open>
  Resolving the element changes the page of the handle, the popup of the registry and
  the trace only.
\<close>

lemma keeps_getPage:
  assumes tr: "\<And>w t. p (w\<lparr>trace := t\<rparr>) = p w"
    and pg: "\<And>w x. p (w\<lparr>hdl := (hdl w)\<lparr>page := x\<rparr>\<rparr>) = p w"
    and pw: "\<And>w r. p (w\<lparr>playwright := r\<rparr>) = p w"
  shows "keeps p (getPage E)"
  unfolding getPage_def
  by (intro keeps_bnd keeps_this keeps_getRegistry)
    (auto intro!: keeps_bnd keeps_thn keeps_assign keeps_perform keeps_setPopup keeps_throw
      keeps_ret keeps_getRegistry simp: tr pg pw split: option.splits)

lemma keeps_waitTillElementToBeReady:
  assumes tr: "\<And>w t. p (w\<lparr>trace := t\<rparr>) = p w"
    and pg: "\<And>w x. p (w\<lparr>hdl := (hdl w)\<lparr>page := x\<rparr>\<rparr>) = p w"
    and pw: "\<And>w r. p (w\<lparr>playwright := r\<rparr>) = p w"
  shows "keeps p (waitTillElementToBeReady E)"
  unfolding waitTillElementToBeReady_def
  by (intro keeps_thn keeps_bnd keeps_getPage keeps_thisPage keeps_perform tr pg pw)

lemma keeps_getElement:
  assumes tr: "\<And>w t. p (w\<lparr>trace := t\<rparr>) = p w"
    and pg: "\<And>w x. p (w\<lparr>hdl := (hdl w)\<lparr>page := x\<rparr>\<rparr>) = p w"
    and pw: "\<And>w r. p (w\<lparr>playwright := r\<rparr>) = p w"
  shows "keeps p (getElement E)"
  unfolding getElement_def
  by (intro keeps_thn keeps_bnd keeps_waitTillElementToBeReady keeps_thisPage keeps_getLocator
      keeps_ret tr pg pw)

lemma keeps_pressKey:
  assumes tr: "\<And>w t. p (w\<lparr>trace := t\<rparr>) = p w"
    and pg: "\<And>w x. p (w\<lparr>hdl := (hdl w)\<lparr>page := x\<rparr>\<rparr>) = p w"
    and pw: "\<And>w r. p (w\<lparr>playwright := r\<rparr>) = p w"
  shows "keeps p (pressKey E keyPress)"
  unfolding pressKey_def
  by (auto intro!: keeps_bnd keeps_getElement keeps_perform keeps_ret tr pg pw split: option.splits)

text \<open>
  \<open>getCount\<close> and \<open>setValue\<close> never return and leave the narrowed locator as it was.
\<close>

lemma getCount_never_returns: "fst (getCount E w) \<noteq> Inr n"
proof
  assume "fst (getCount E w) = Inr n"
  then obtain w' where "getCount E w = (Inr n, w')" by (cases "getCount E w") auto
  then show False
    by (auto simp: getCount_def clearFullCssAndXpath_raises dest!: bnd_Inr thn_Inr)
qed

lemma setValue_never_returns: "fst (setValue E inputString keyPress force w) \<noteq> Inr u"
proof
  assume "fst (setValue E inputString keyPress force w) = Inr u"
  then obtain w' where "setValue E inputString keyPress force w = (Inr u, w')"
    by (cases "setValue E inputString keyPress force w") auto
  then show False
    by (auto simp: setValue_def Let_def clearFullCssAndXpath_raises dest!: bnd_Inr thn_Inr)
qed

lemma keeps_fullCss_getCount: "keeps (\<lambda>w. (locator (hdl w), fullCss (hdl w), fullXpath (hdl w))) (getCount E)"
  unfolding getCount_def countOf_def clearFullCssAndXpath_def
  by (intro keeps_bnd keeps_thn keeps_getElement keeps_perform keeps_ret keeps_notAFunction) simp_all

lemma keeps_fullCss_setValue:
  "keeps (\<lambda>w. (locator (hdl w), fullCss (hdl w), fullXpath (hdl w))) (setValue E inputString keyPress force)"
  unfolding setValue_def Let_def clearFullCssAndXpath_def
  by (intro keeps_bnd keeps_thn keeps_getElement keeps_perform keeps_ret keeps_notAFunction
      keeps_pressKey keeps_this)
    (simp_all add: keeps_def logger_info_def Let_def)

text \<open>
  C1 (the code departs from the claim). The handle \<open>#list li\<close> is narrowed with
  \<open>contains\<close>. After \<open>getCount\<close>, and after \<open>setValue\<close>, the call has raised a
  \<open>TypeError\<close> and the effective locator is still the narrowed one; after \<open>click\<close> it
  is the base locator again.
\<close>

theorem C1_getCount_and_setValue_leave_handle_narrowed:
  "(let h = UiElement ''#list li'' (Some ''items'') None None;
        E = pageEngine 4 [] [] 4 None;
        r1 = chain E [ByContains ''x'' None] DoGetCount (startWorld h);
        r2 = chain E [ByContains ''x'' None] (DoSetValue ''v'' None None) (startWorld h);
        r3 = chain E [ByContains ''x'' None] (DoClick None None) (startWorld h)
    in fst r1 = Inl (TypeError ''this.clearFullCssAndXpath is not a function'')
       \<and> fullCss (hdl (snd r1)) = ''li:nth-of-type(1)'' \<and> locator (hdl (snd r1)) = ''#list li''
       \<and> fullXpath (hdl (snd r1)) = Some ''//li''
       \<and> fst r2 = Inl (TypeError ''this.clearFullCssAndXpath is not a function'')
       \<and> fullCss (hdl (snd r2)) = ''li:nth-of-type(1)'' \<and> locator (hdl (snd r2)) = ''#list li''
       \<and> fst r3 = Inr ()
       \<and> fullCss (hdl (snd r3)) = ''#list li'' \<and> fullXpath (hdl (snd r3)) = Some [])"
  by code_simp

text \<open>\<open>getNth\<close> and \<open>getRow\<close> never return: they end in \<open>this.setCssAndXPath\<close>.\<close>

lemma getNth_never_returns: "fst (getNth E index w) \<noteq> Inr h"
proof
  assume "fst (getNth E index w) = Inr h"
  then obtain w' where "getNth E index w = (Inr h, w')" by (cases "getNth E index w") auto
  then show False
    by (auto simp: getNth_def setCssAndXPath_raises dest!: bnd_Inr thn_Inr)
qed

lemma getRow_never_returns: "fst (getRow E index loc w) \<noteq> Inr h"
proof
  assume "fst (getRow E index loc w) = Inr h"
  then obtain w' where "getRow E index loc w = (Inr h, w')" by (cases "getRow E index loc w") auto
  then show False
    by (auto simp: getRow_def Let_def setCssAndXPath_raises dest!: bnd_Inr thn_Inr)
qed

section \<open>Check boxes\<close>

lemma check_objIndex_cases:
  "check_objIndex (Some i) = Some (- 1)" "check_objIndex None = None"
  by (simp_all add: check_objIndex_def)

lemma check_obj_first: "check_obj (check_objIndex objIndex) element = First element"
  by (cases objIndex) (simp_all add: check_obj_def check_objIndex_def greaterThan_def)

text \<open>The element that \<open>getElement\<close> returns is the effective locator on the page of the handle.\<close>

lemma getElement_locator:
  assumes "getElement E w = (Inr element, w')"
  shows "\<exists>p. element = PageLocator p (fullCss (hdl w))"
proof -
  from assms obtain u w1 where wt: "waitTillElementToBeReady E w = (Inr u, w1)"
    and rest: "bnd thisPage (\<lambda>p. bnd getLocator (\<lambda>l. ret (PageLocator p l))) w1 = (Inr element, w')"
    unfolding getElement_def by (auto dest!: thn_Inr)
  have "keeps (\<lambda>w. (fullCss (hdl w), locator (hdl w))) (waitTillElementToBeReady E)"
    by (intro keeps_waitTillElementToBeReady) simp_all
  from keepsD [OF this wt] have k: "fullCss (hdl w1) = fullCss (hdl w)" by simp
  from rest k show ?thesis
    by (auto simp: thisPage_def getLocator_def bnd_def this_def ret_def throw_def
        split: option.splits)
qed

text \<open>
  The calls that \<open>check\<close> and \<open>uncheck\<close> make once the element is resolved, when the
  read of the attribute does not raise.
\<close>

lemma check_uncheck_traces:
  assumes ge: "getElement E w1 = (Inr element, w2)"
    and na: "e_raises E (GetAttribute (First element) ''disabled'') = None"
  shows "waitTillElementToBeReady E w = (Inr (), w1) \<Longrightarrow>
           trace (snd (check E objIndex force w))
             = trace w2 @ GetAttribute (First element) ''disabled''
                 # (if truthy (e_getAttribute E (First element) ''disabled'') then []
                    else [Check (First element) (case force of None \<Rightarrow> False | Some b \<Rightarrow> b)])"
    and "trace (snd (uncheck E objIndex force w1))
             = trace w2 @ GetAttribute (First element) ''disabled''
                 # (if truthy (e_getAttribute E (First element) ''disabled'') then []
                    else [Uncheck (First element) (case force of None \<Rightarrow> False | Some b \<Rightarrow> b)])"
proof -
  let ?obj = "First element"
  let ?w3 = "w2\<lparr>trace := trace w2 @ [GetAttribute ?obj ''disabled'']\<rparr>"
  have attr: "getAttributeOf E ?obj ''disabled'' w2
      = (Inr (e_getAttribute E ?obj ''disabled''), ?w3)"
    using na by (simp add: getAttributeOf_def thn_def bnd_def perform_def ret_def)
  let ?skip = "\<lambda>msg. thn (bnd this (\<lambda>h. logger_info (objectDescriptor h @ msg))) clearFullCssAndXPath ?w3"
  let ?act = "\<lambda>c msg. thn (thn (perform E c) (bnd this (\<lambda>h. logger_info (objectDescriptor h @ msg))))
        clearFullCssAndXPath ?w3"
  have skip: "trace (snd (?skip msg)) = trace w2 @ [GetAttribute ?obj ''disabled'']" for msg
    by (simp add: thn_def bnd_def this_def logger_info_def Let_def clearFullCssAndXPath_run)
  have act: "trace (snd (?act c msg)) = trace w2 @ [GetAttribute ?obj ''disabled'', c]" for c msg
    by (cases "e_raises E c")
      (simp_all add: thn_def bnd_def this_def logger_info_def Let_def perform_def
        clearFullCssAndXPath_run)
  have un: "uncheck E objIndex force w1 =
      thn (if \<not> truthy (e_getAttribute E ?obj ''disabled'') then
             thn (perform E (Uncheck ?obj (case force of None \<Rightarrow> False | Some b \<Rightarrow> b)))
               (bnd this (\<lambda>h. logger_info (objectDescriptor h @ '' - unchecked the checkbox'')))
           else
             bnd this (\<lambda>h. logger_info (objectDescriptor h
                 @ '' - unable to uncheck the checkbox, it'' @ [quote] @ ''s disabled'')))
          clearFullCssAndXPath ?w3"
    by (simp add: uncheck_def Let_def check_obj_first bnd_def ge attr)
  show "trace (snd (uncheck E objIndex force w1))
             = trace w2 @ GetAttribute (First element) ''disabled''
                 # (if truthy (e_getAttribute E (First element) ''disabled'') then []
                    else [Uncheck (First element) (case force of None \<Rightarrow> False | Some b \<Rightarrow> b)])"
    by (cases "truthy (e_getAttribute E ?obj ''disabled'')") (simp_all add: un skip act)
  assume wt: "waitTillElementToBeReady E w = (Inr (), w1)"
  have ch: "check E objIndex force w =
      thn (if \<not> truthy (e_getAttribute E ?obj ''disabled'') then
             thn (perform E (Check ?obj (case force of None \<Rightarrow> False | Some b \<Rightarrow> b)))
               (bnd this (\<lambda>h. logger_info (objectDescriptor h @ '' - checked the checkbox'')))
           else
             bnd this (\<lambda>h. logger_info (objectDescriptor h
                 @ '' - unable to check the checkbox, it'' @ [quote] @ ''s disabled'')))
          clearFullCssAndXPath ?w3"
    by (simp add: check_def Let_def check_obj_first thn_def bnd_def wt ge attr)
  show "trace (snd (check E objIndex force w))
             = trace w2 @ GetAttribute (First element) ''disabled''
                 # (if truthy (e_getAttribute E (First element) ''disabled'') then []
                    else [Check (First element) (case force of None \<Rightarrow> False | Some b \<Rightarrow> b)])"
    by (cases "truthy (e_getAttribute E ?obj ''disabled'')") (simp_all add: ch skip act)
qed

text \<open>
  C10. The index computed by \<open>check\<close> and \<open>uncheck\<close> is \<open>-1\<close> for every given
  \<open>objIndex\<close> and \<open>undefined\<close> for an absent one, and neither is greater than \<open>-1\<close>.
  So, for every \<open>objIndex\<close> and \<open>force\<close>: once the element is resolved (it is the
  effective locator of the handle) and when the read of the attribute does not
  raise, the read of \<open>disabled\<close> and the \<open>check\<close> or \<open>uncheck\<close> call, if one is made,
  are made on the first element of the match set, and no call is made on an
  \<open>nth\<close> element; a call with an \<open>objIndex\<close> runs as the call without it.
\<close>

theorem C10_objIndex_never_honored:
  assumes "getElement E w1 = (Inr element, w2)"
    and "e_raises E (GetAttribute (First element) ''disabled'') = None"
  shows "check_objIndex (Some i) = Some (- 1) \<and> check_objIndex None = None
   \<and> \<not> greaterThan (check_objIndex objIndex) (- 1)
   \<and> (\<exists>p. element = PageLocator p (fullCss (hdl w1)))
   \<and> (waitTillElementToBeReady E w = (Inr (), w1) \<longrightarrow>
        trace (snd (check E objIndex force w))
          = trace w2 @ GetAttribute (First element) ''disabled''
              # (if truthy (e_getAttribute E (First element) ''disabled'') then []
                 else [Check (First element) (case force of None \<Rightarrow> False | Some b \<Rightarrow> b)]))
   \<and> trace (snd (uncheck E objIndex force w1))
          = trace w2 @ GetAttribute (First element) ''disabled''
              # (if truthy (e_getAttribute E (First element) ''disabled'') then []
                 else [Uncheck (First element) (case force of None \<Rightarrow> False | Some b \<Rightarrow> b)])
   \<and> check E objIndex force = check E None force
   \<and> uncheck E objIndex force = uncheck E None force"
proof -
  have "\<not> greaterThan (check_objIndex objIndex) (- 1)"
    by (cases objIndex) (simp_all add: check_objIndex_def greaterThan_def)
  moreover have "check E objIndex force = check E None force"
    by (simp add: check_def check_obj_first)
  moreover have "uncheck E objIndex force = uncheck E None force"
    by (simp add: uncheck_def check_obj_first)
  moreover note getElement_locator [OF assms(1)]
    check_uncheck_traces [OF assms]
  ultimately show ?thesis
    by (simp add: check_objIndex_cases)
qed

theorem C10_objIndex_witness:
  "(let E = pageEngine 4 [] [] 0 None;
        w = startWorld (UiElement ''.box'' (Some ''boxes'') None None);
        w1 = snd (waitTillElementToBeReady E w);
        w2 = snd (getElement E w1)
    in waitTillElementToBeReady E w = (Inr (), w1)
       \<and> getElement E w1 = (Inr (PageLocator 0 ''.box''), w2)
       \<and> e_raises E (GetAttribute (First (PageLocator 0 ''.box'')) ''disabled'') = None
       \<and> e_count E (PageLocator 0 ''.box'') = 4
       \<and> trace (snd (check E (Some 2) None w))
           = trace w2 @ [GetAttribute (First (PageLocator 0 ''.box'')) ''disabled'',
               Check (First (PageLocator 0 ''.box'')) False]
       \<and> trace (snd (uncheck E (Some 2) (Some True) w1))
           = trace w2 @ [GetAttribute (First (PageLocator 0 ''.box'')) ''disabled'',
               Uncheck (First (PageLocator 0 ''.box'')) True])"
proof -
  define E where "E = pageEngine 4 [] [] 0 None"
  define w where "w = startWorld (UiElement ''.box'' (Some ''boxes'') None None)"
  have r: "waitTillElementToBeReady E w = (Inr (), snd (waitTillElementToBeReady E w))"
    unfolding w_def E_def by code_simp
  have g: "getElement E (snd (waitTillElementToBeReady E w))
      = (Inr (PageLocator 0 ''.box''), snd (getElement E (snd (waitTillElementToBeReady E w))))"
    unfolding w_def E_def by code_simp
  have n: "e_raises E (GetAttribute (First (PageLocator 0 ''.box'')) ''disabled'') = None"
    by (simp add: E_def pageEngine_def)
  have t: "\<not> truthy (e_getAttribute E (First (PageLocator 0 ''.box'')) ''disabled'')"
    by (simp add: E_def pageEngine_def truthy_def)
  have c: "e_count E (PageLocator 0 ''.box'') = 4"
    by (simp add: E_def pageEngine_def)
  from C10_objIndex_never_honored [OF g n, of 0 "Some 2" w None] r
  have a0: "trace (snd (check E (Some 2) None w))
           = trace (snd (getElement E (snd (waitTillElementToBeReady E w))))
              @ GetAttribute (First (PageLocator 0 ''.box'')) ''disabled''
                # (if truthy (e_getAttribute E (First (PageLocator 0 ''.box'')) ''disabled'') then []
                   else [Check (First (PageLocator 0 ''.box'')) (case None of None \<Rightarrow> False | Some b \<Rightarrow> b)])"
    by blast
  from a0 t
  have a: "trace (snd (check E (Some 2) None w))
           = trace (snd (getElement E (snd (waitTillElementToBeReady E w))))
              @ [GetAttribute (First (PageLocator 0 ''.box'')) ''disabled'',
               Check (First (PageLocator 0 ''.box'')) False]"
    by simp
  from C10_objIndex_never_honored [OF g n, of 0 "Some 2" w "Some True"]
  have b0: "trace (snd (uncheck E (Some 2) (Some True) (snd (waitTillElementToBeReady E w))))
           = trace (snd (getElement E (snd (waitTillElementToBeReady E w))))
              @ GetAttribute (First (PageLocator 0 ''.box'')) ''disabled''
                # (if truthy (e_getAttribute E (First (PageLocator 0 ''.box'')) ''disabled'') then []
                   else [Uncheck (First (PageLocator 0 ''.box''))
                           (case Some True of None \<Rightarrow> False | Some b \<Rightarrow> b)])"
    by blast
  from b0 t
  have b: "trace (snd (uncheck E (Some 2) (Some True) (snd (waitTillElementToBeReady E w))))
           = trace (snd (getElement E (snd (waitTillElementToBeReady E w))))
              @ [GetAttribute (First (PageLocator 0 ''.box'')) ''disabled'',
               Uncheck (First (PageLocator 0 ''.box'')) True]"
    by simp
  from a b r g n c show ?thesis
    unfolding Let_def w_def E_def by blast
qed

text \<open>
  C6. Let the element be resolved (for \<open>check\<close> after its readiness wait) and let the
  read of the attribute \<open>disabled\<close> not raise. If the value read is truthy, the call
  returns normally, the read of the attribute is the last call made, and the line
  logged is the skip message. If it is null or the empty string, the calls made
  after the resolution are the read and one \<open>check\<close> (one \<open>uncheck\<close>).
\<close>

theorem C6_disabled_checkbox_is_skipped:
  assumes "getElement E w1 = (Inr element, w2)"
    and "e_raises E (GetAttribute (First element) ''disabled'') = None"
  shows "(waitTillElementToBeReady E w = (Inr (), w1) \<longrightarrow>
           (if truthy (e_getAttribute E (First element) ''disabled'')
            then fst (check E objIndex force w) = Inr ()
              \<and> trace (snd (check E objIndex force w))
                  = trace w2 @ [GetAttribute (First element) ''disabled'']
              \<and> log (snd (check E objIndex force w))
                  = log w2 @ [objectDescriptor (hdl w2)
                        @ '' - unable to check the checkbox, it'' @ [quote] @ ''s disabled'']
            else trace (snd (check E objIndex force w))
                  = trace w2 @ [GetAttribute (First element) ''disabled'',
                      Check (First element) (case force of None \<Rightarrow> False | Some b \<Rightarrow> b)]))
       \<and> (if truthy (e_getAttribute E (First element) ''disabled'')
            then fst (uncheck E objIndex force w1) = Inr ()
              \<and> trace (snd (uncheck E objIndex force w1))
                  = trace w2 @ [GetAttribute (First element) ''disabled'']
              \<and> log (snd (uncheck E objIndex force w1))
                  = log w2 @ [objectDescriptor (hdl w2)
                        @ '' - unable to uncheck the checkbox, it'' @ [quote] @ ''s disabled'']
            else trace (snd (uncheck E objIndex force w1))
                  = trace w2 @ [GetAttribute (First element) ''disabled'',
                      Uncheck (First element) (case force of None \<Rightarrow> False | Some b \<Rightarrow> b)])"
proof -
  let ?obj = "First element"
  let ?w3 = "w2\<lparr>trace := trace w2 @ [GetAttribute ?obj ''disabled'']\<rparr>"
  have attr: "getAttributeOf E ?obj ''disabled'' w2
      = (Inr (e_getAttribute E ?obj ''disabled''), ?w3)"
    using assms(2) by (simp add: getAttributeOf_def thn_def bnd_def perform_def ret_def)
  have un: "uncheck E objIndex force w1 =
      thn (if \<not> truthy (e_getAttribute E ?obj ''disabled'') then
             thn (perform E (Uncheck ?obj (case force of None \<Rightarrow> False | Some b \<Rightarrow> b)))
               (bnd this (\<lambda>h. logger_info (objectDescriptor h @ '' - unchecked the checkbox'')))
           else
             bnd this (\<lambda>h. logger_info (objectDescriptor h
                 @ '' - unable to uncheck the checkbox, it'' @ [quote] @ ''s disabled'')))
          clearFullCssAndXPath ?w3"
    by (simp add: uncheck_def Let_def check_obj_first bnd_def assms(1) attr)
  have ch: "waitTillElementToBeReady E w = (Inr (), w1) \<Longrightarrow> check E objIndex force w =
      thn (if \<not> truthy (e_getAttribute E ?obj ''disabled'') then
             thn (perform E (Check ?obj (case force of None \<Rightarrow> False | Some b \<Rightarrow> b)))
               (bnd this (\<lambda>h. logger_info (objectDescriptor h @ '' - checked the checkbox'')))
           else
             bnd this (\<lambda>h. logger_info (objectDescriptor h
                 @ '' - unable to check the checkbox, it'' @ [quote] @ ''s disabled'')))
          clearFullCssAndXPath ?w3"
    by (simp add: check_def Let_def check_obj_first thn_def bnd_def assms(1) attr)
  let ?skip = "\<lambda>msg. thn (bnd this (\<lambda>h. logger_info (objectDescriptor h @ msg))) clearFullCssAndXPath ?w3"
  let ?act = "\<lambda>c msg. thn (thn (perform E c) (bnd this (\<lambda>h. logger_info (objectDescriptor h @ msg))))
        clearFullCssAndXPath ?w3"
  have skip1: "fst (?skip msg) = Inr ()" for msg
    by (simp add: thn_def bnd_def this_def logger_info_def Let_def clearFullCssAndXPath_run)
  have skip2: "trace (snd (?skip msg)) = trace w2 @ [GetAttribute ?obj ''disabled'']" for msg
    by (simp add: thn_def bnd_def this_def logger_info_def Let_def clearFullCssAndXPath_run)
  have skip3: "log (snd (?skip msg)) = log w2 @ [objectDescriptor (hdl w2) @ msg]" for msg
    by (simp add: thn_def bnd_def this_def logger_info_def Let_def clearFullCssAndXPath_run)
  have act: "trace (snd (?act c msg)) = trace w2 @ [GetAttribute ?obj ''disabled'', c]" for c msg
    by (cases "e_raises E c")
      (simp_all add: thn_def bnd_def this_def logger_info_def Let_def perform_def
        clearFullCssAndXPath_run)
  show ?thesis
  proof (cases "truthy (e_getAttribute E ?obj ''disabled'')")
    case True
    then show ?thesis
      by (simp add: un ch skip1 skip2 skip3)
  next
    case False
    then show ?thesis
      by (simp add: un ch act)
  qed
qed

theorem C6_disabled_checkbox_witness:
  "(let E = pageEngine 1 [] [] 0 (Some ''true'');
        w = startWorld (UiElement ''#agree'' (Some ''terms'') None None);
        w2 = snd (getElement E (snd (waitTillElementToBeReady E w)))
    in truthy (e_getAttribute E (First (PageLocator 0 ''#agree'')) ''disabled'')
       \<and> fst (check E (Some 2) None w) = Inr ()
       \<and> trace (snd (check E (Some 2) None w))
           = trace w2 @ [GetAttribute (First (PageLocator 0 ''#agree'')) ''disabled'']
       \<and> log (snd (check E (Some 2) None w))
           = [''terms - unable to check the checkbox, it'' @ [quote] @ ''s disabled''])
   \<and> (let E = pageEngine 1 [] [] 0 None;
        w = startWorld (UiElement ''#agree'' (Some ''terms'') None None);
        w2 = snd (getElement E (snd (waitTillElementToBeReady E w)))
    in \<not> truthy (e_getAttribute E (First (PageLocator 0 ''#agree'')) ''disabled'')
       \<and> trace (snd (check E (Some 2) None w))
           = trace w2 @ [GetAttribute (First (PageLocator 0 ''#agree'')) ''disabled'',
               Check (First (PageLocator 0 ''#agree'')) False])"
proof -
  define w where "w = startWorld (UiElement ''#agree'' (Some ''terms'') None None)"
  define E1 where "E1 = pageEngine 1 [] [] 0 (Some ''true'')"
  define E2 where "E2 = pageEngine 1 [] [] 0 None"
  have r1: "waitTillElementToBeReady E1 w = (Inr (), snd (waitTillElementToBeReady E1 w))"
    unfolding w_def E1_def by code_simp
  have g1: "getElement E1 (snd (waitTillElementToBeReady E1 w))
      = (Inr (PageLocator 0 ''#agree''), snd (getElement E1 (snd (waitTillElementToBeReady E1 w))))"
    unfolding w_def E1_def by code_simp
  have n1: "e_raises E1 (GetAttribute (First (PageLocator 0 ''#agree'')) ''disabled'') = None"
    by (simp add: E1_def pageEngine_def)
  have t1: "truthy (e_getAttribute E1 (First (PageLocator 0 ''#agree'')) ''disabled'')"
    by (simp add: E1_def pageEngine_def truthy_def)
  have l1: "log (snd (getElement E1 (snd (waitTillElementToBeReady E1 w)))) = []"
    unfolding w_def E1_def by code_simp
  have d1: "objectDescriptor (hdl (snd (getElement E1 (snd (waitTillElementToBeReady E1 w))))) = ''terms''"
    unfolding w_def E1_def by code_simp
  have r2: "waitTillElementToBeReady E2 w = (Inr (), snd (waitTillElementToBeReady E2 w))"
    unfolding w_def E2_def by code_simp
  have g2: "getElement E2 (snd (waitTillElementToBeReady E2 w))
      = (Inr (PageLocator 0 ''#agree''), snd (getElement E2 (snd (waitTillElementToBeReady E2 w))))"
    unfolding w_def E2_def by code_simp
  have n2: "e_raises E2 (GetAttribute (First (PageLocator 0 ''#agree'')) ''disabled'') = None"
    by (simp add: E2_def pageEngine_def)
  have t2: "\<not> truthy (e_getAttribute E2 (First (PageLocator 0 ''#agree'')) ''disabled'')"
    by (simp add: E2_def pageEngine_def truthy_def)
  from C6_disabled_checkbox_is_skipped [OF g1 n1, of w "Some 2" None] r1 t1 l1 d1
  have a: "fst (check E1 (Some 2) None w) = Inr ()
       \<and> trace (snd (check E1 (Some 2) None w))
           = trace (snd (getElement E1 (snd (waitTillElementToBeReady E1 w))))
              @ [GetAttribute (First (PageLocator 0 ''#agree'')) ''disabled'']
       \<and> log (snd (check E1 (Some 2) None w))
           = [''terms - unable to check the checkbox, it'' @ [quote] @ ''s disabled'']"
    by simp
  from C6_disabled_checkbox_is_skipped [OF g2 n2, of w "Some 2" None] r2 t2
  have b: "trace (snd (check E2 (Some 2) None w))
           = trace (snd (getElement E2 (snd (waitTillElementToBeReady E2 w))))
              @ [GetAttribute (First (PageLocator 0 ''#agree'')) ''disabled'',
               Check (First (PageLocator 0 ''#agree'')) False]"
    by simp
  from a b t1 t2 show ?thesis
    unfolding Let_def w_def E1_def E2_def by blast
qed

section \<open>Entering values\<close>

lemma entry_step:
  assumes "keeps (\<lambda>w. (log w, objectDescriptor (hdl w))) m"
    and "log w = log w0" and "objectDescriptor (hdl w) = d"
    and "\<And>w1. log w1 = log w0 \<Longrightarrow> objectDescriptor (hdl w1) = d \<Longrightarrow>
           log (snd (n w1)) = log w0 \<or> log (snd (n w1)) = log w0 @ [line]"
  shows "log (snd (thn m n w)) = log w0 \<or> log (snd (thn m n w)) = log w0 @ [line]"
proof (cases "m w")
  case (Pair r w1)
  with assms(1) have "(log w1, objectDescriptor (hdl w1)) = (log w, objectDescriptor (hdl w))"
    by (rule keepsD)
  with assms(2,3) have k: "log w1 = log w0" "objectDescriptor (hdl w1) = d" by simp_all
  show ?thesis
  proof (cases r)
    case (Inl e)
    with Pair k show ?thesis by (simp add: thn_def bnd_def)
  next
    case (Inr x)
    with Pair assms(4) [OF k] show ?thesis by (simp add: thn_def bnd_def)
  qed
qed

lemma keeps_log_step:
  "keeps (\<lambda>w. (log w, objectDescriptor (hdl w))) (bnd (getElement E) (\<lambda>element. perform E (c element)))"
  by (intro keeps_bnd keeps_getElement keeps_perform) simp_all

lemma keeps_log_pressKey:
  "keeps (\<lambda>w. (log w, objectDescriptor (hdl w))) (pressKey E keyPress)"
  by (intro keeps_pressKey) simp_all

lemma log_line_then:
  "log (snd (thn (bnd this (\<lambda>h. logger_info (objectDescriptor h @ msg h))) n w))
     = log (snd (n (snd (logger_info (objectDescriptor (hdl w) @ msg (hdl w)) w))))"
  by (simp add: thn_def bnd_def this_def logger_info_def Let_def)

lemma log_logger_info: "log (snd (logger_info msg w)) = log w @ [msg]"
  by (simp add: logger_info_def Let_def)

lemma log_clearFullCssAndXPath: "log (snd (clearFullCssAndXPath w)) = log w"
  by (simp add: clearFullCssAndXPath_run)

lemma log_clearFullCssAndXpath: "log (snd (clearFullCssAndXpath w)) = log w"
  by (simp add: clearFullCssAndXpath_raises)

lemma setValue_log:
  "log (snd (setValue E inputString keyPress force w)) = log w
   \<or> log (snd (setValue E inputString keyPress force w))
       = log w @ [objectDescriptor (hdl w) @ '' - set the value: '' @ maskedValue (hdl w) inputString]"
  unfolding setValue_def Let_def
  apply (rule entry_step [OF keeps_log_step refl refl])
  apply (rule entry_step [OF keeps_log_step], assumption, assumption)
  apply (rule entry_step [OF keeps_log_pressKey], assumption, assumption)
  apply (simp add: log_line_then log_logger_info log_clearFullCssAndXpath maskedValue_def)
  done

lemma type_log:
  "log (snd (type E inputString delay keyPress w)) = log w
   \<or> log (snd (type E inputString delay keyPress w))
       = log w @ [objectDescriptor (hdl w) @ '' - typed the value: '' @ maskedValue (hdl w) inputString]"
  unfolding type_def Let_def
  apply (rule entry_step [OF keeps_log_step refl refl])
  apply (rule entry_step [OF keeps_log_pressKey], assumption, assumption)
  apply (simp add: log_line_then log_logger_info log_clearFullCssAndXPath maskedValue_def)
  done

lemma pressSequentially_log:
  "log (snd (pressSequentially E inputString delay keyPress w)) = log w
   \<or> log (snd (pressSequentially E inputString delay keyPress w))
       = log w @ [objectDescriptor (hdl w) @ '' - pressed sequentially: ''
            @ maskedValue (hdl w) inputString]"
  unfolding pressSequentially_def Let_def
  apply (rule entry_step [OF keeps_log_step refl refl])
  apply (rule entry_step [OF keeps_log_pressKey], assumption, assumption)
  apply (simp add: log_line_then log_logger_info log_clearFullCssAndXPath maskedValue_def)
  done

section \<open>Runs in which no call raises\<close>

lemma getPage_tab:
  "\<not> isPopupExist (hdl w) \<Longrightarrow> reg_context (playwright w) = Some pages \<Longrightarrow>
     getPage E w = (Inr (), w\<lparr>hdl := (hdl w)\<lparr>page := at_index pages (pageIndex (hdl w))\<rparr>\<rparr>)"
  by (simp add: getPage_def bnd_def this_def getRegistry_def assign_def)

lemma getPage_popup_known:
  "isPopupExist (hdl w) \<Longrightarrow> reg_popup (playwright w) = Some q \<Longrightarrow>
     getPage E w = (Inr (), w\<lparr>hdl := (hdl w)\<lparr>page := Some q\<rparr>\<rparr>)"
  by (simp add: getPage_def bnd_def thn_def this_def getRegistry_def assign_def ret_def)

lemma getPage_popup_wait:
  "isPopupExist (hdl w) \<Longrightarrow> reg_popup (playwright w) = None \<Longrightarrow>
   reg_page (playwright w) = Some p \<Longrightarrow> e_raises E (WaitForEvent p ''popup'') = None \<Longrightarrow>
     getPage E w =
       (Inr (), w\<lparr>hdl := (hdl w)\<lparr>page := Some (e_popupEvent E)\<rparr>,
                  playwright := (playwright w)\<lparr>reg_popup := Some (e_popupEvent E)\<rparr>,
                  trace := trace w @ [WaitForEvent p ''popup'']\<rparr>)"
  by (simp add: getPage_def bnd_def thn_def this_def getRegistry_def assign_def ret_def
      perform_def setPopup_def)

lemma getPage_resolves:
  assumes nr: "\<forall>c. e_raises E c = None" and pr: "pageResolves w"
  shows "\<exists>p w1. getPage E w = (Inr (), w1) \<and> page (hdl w1) = Some p \<and> pageResolves w1
           \<and> fullCss (hdl w1) = fullCss (hdl w) \<and> locator (hdl w1) = locator (hdl w)"
proof (cases "isPopupExist (hdl w)")
  case False
  with pr obtain pages p where c: "reg_context (playwright w) = Some pages"
    and p: "at_index pages (pageIndex (hdl w)) = Some p"
    by (auto simp: pageResolves_def split: option.splits)
  from getPage_tab [OF False c, of E] False c p show ?thesis
    by (simp add: pageResolves_def)
next
  case True
  show ?thesis
  proof (cases "reg_popup (playwright w)")
    case (Some q)
    from getPage_popup_known [OF True Some, of E] True Some show ?thesis
      by (simp add: pageResolves_def)
  next
    case None
    with pr True obtain p where p: "reg_page (playwright w) = Some p"
      by (auto simp: pageResolves_def split: option.splits)
    from nr have "e_raises E (WaitForEvent p ''popup'') = None" by simp
    from getPage_popup_wait [OF True None p this] True show ?thesis
      by (simp add: pageResolves_def)
  qed
qed

lemma pageResolves_trace: "pageResolves (w\<lparr>trace := t\<rparr>) = pageResolves w"
  by (simp add: pageResolves_def cong: option.case_cong)

lemma thn_unfold:
  "thn m n w = (case m w of (Inl e, w') \<Rightarrow> (Inl e, w') | (Inr x, w') \<Rightarrow> n w')"
  by (simp add: thn_def bnd_def)

lemma bnd_this: "bnd this f w = f (hdl w) w"
  by (simp add: bnd_def this_def)

lemma getElement_after_getPage:
  assumes nr: "\<forall>c. e_raises E c = None"
    and gp: "getPage E w = (Inr (), w1)" and pg: "page (hdl w1) = Some p"
  shows "getElement E w =
     (Inr (PageLocator p (fullCss (hdl w1))),
      w1\<lparr>trace := trace w1 @ [WaitForTimeout p 10, WaitForLoadState p ''load'',
          WaitForLoadState p ''domcontentloaded'', WaitForLoadState p ''networkidle'']\<rparr>)"
  by (simp add: getElement_def waitTillElementToBeReady_def getLocator_def thisPage_def
      thn_def bnd_def this_def ret_def perform_def gp pg nr)

lemma getElement_resolves:
  assumes nr: "\<forall>c. e_raises E c = None" and pr: "pageResolves w"
  shows "\<exists>p w1. getElement E w = (Inr (PageLocator p (fullCss (hdl w))), w1) \<and> pageResolves w1"
proof -
  from getPage_resolves [OF nr pr] obtain p w1 where gp: "getPage E w = (Inr (), w1)"
    and pg: "page (hdl w1) = Some p" and pr1: "pageResolves w1"
    and css: "fullCss (hdl w1) = fullCss (hdl w)"
    by blast
  from getElement_after_getPage [OF nr gp pg] pr1 css show ?thesis
    by (simp add: pageResolves_trace)
qed

lemma keeps_log_desc_getElement:
  "keeps (\<lambda>w. (log w, objectDescriptor (hdl w))) (getElement E)"
  by (intro keeps_getElement) simp_all

text \<open>
  One step of a value entry: the element is resolved and one call is made on it.
  When no call raises and the page resolves, the step returns, the page still
  resolves, and the log and the description are as before.
\<close>

lemma entry_step_runs:
  assumes nr: "\<forall>c. e_raises E c = None" and pr: "pageResolves w"
  shows "\<exists>w1. bnd (getElement E) (\<lambda>element. perform E (c element)) w = (Inr (), w1)
           \<and> pageResolves w1 \<and> log w1 = log w
           \<and> objectDescriptor (hdl w1) = objectDescriptor (hdl w)"
proof -
  from getElement_resolves [OF nr pr] obtain p w1
    where ge: "getElement E w = (Inr (PageLocator p (fullCss (hdl w))), w1)" and pr1: "pageResolves w1"
    by blast
  from keepsD [OF keeps_log_desc_getElement ge]
  have k: "log w1 = log w" "objectDescriptor (hdl w1) = objectDescriptor (hdl w)" by simp_all
  from ge pr1 k show ?thesis
    by (simp add: bnd_def perform_def nr pageResolves_trace)
qed

lemma pressKey_runs:
  assumes nr: "\<forall>c. e_raises E c = None" and pr: "pageResolves w"
  shows "\<exists>w1. pressKey E keyPress w = (Inr (), w1)
           \<and> pageResolves w1 \<and> log w1 = log w
           \<and> objectDescriptor (hdl w1) = objectDescriptor (hdl w)"
proof (cases keyPress)
  case None
  with pr show ?thesis by (simp add: pressKey_def ret_def)
next
  case (Some k)
  with entry_step_runs [OF nr pr, of "\<lambda>element. Press element k"] show ?thesis
    by (simp add: pressKey_def)
qed

lemma setValue_emits:
  assumes nr: "\<forall>c. e_raises E c = None" and pr: "pageResolves w"
  shows "log (snd (setValue E inputString keyPress force w))
       = log w @ [objectDescriptor (hdl w) @ '' - set the value: '' @ maskedValue (hdl w) inputString]"
proof -
  from entry_step_runs [OF nr pr, of "\<lambda>element. Clear element"] obtain w1
    where s1: "bnd (getElement E) (\<lambda>element. perform E (Clear element)) w = (Inr (), w1)"
      and p1: "pageResolves w1" and k1: "log w1 = log w"
        "objectDescriptor (hdl w1) = objectDescriptor (hdl w)" by blast
  from entry_step_runs [OF nr p1, of "\<lambda>element. Fill element inputString
      (case force of None \<Rightarrow> False | Some b \<Rightarrow> b)"] obtain w2
    where s2: "bnd (getElement E) (\<lambda>element. perform E (Fill element inputString
        (case force of None \<Rightarrow> False | Some b \<Rightarrow> b))) w1 = (Inr (), w2)"
      and p2: "pageResolves w2" and k2: "log w2 = log w1"
        "objectDescriptor (hdl w2) = objectDescriptor (hdl w1)" by blast
  from pressKey_runs [OF nr p2, of keyPress] obtain w3
    where s3: "pressKey E keyPress w2 = (Inr (), w3)" and k3: "log w3 = log w2"
        "objectDescriptor (hdl w3) = objectDescriptor (hdl w2)" by blast
  show ?thesis
    by (simp add: setValue_def Let_def thn_unfold s1 s2 s3 bnd_this logger_info_def
        clearFullCssAndXpath_raises k1 k2 k3 maskedValue_def)
qed

lemma entry_emits:
  assumes nr: "\<forall>c. e_raises E c = None" and pr: "pageResolves w"
  shows "log (snd (thn (bnd (getElement E) (\<lambda>element. perform E (c element)))
            (thn (pressKey E keyPress)
              (thn (bnd this (\<lambda>h. logger_info (objectDescriptor h @ msg (objectDescriptor h))))
                 clearFullCssAndXPath)) w))
       = log w @ [objectDescriptor (hdl w) @ msg (objectDescriptor (hdl w))]"
proof -
  from entry_step_runs [OF nr pr, of c] obtain w1
    where s1: "bnd (getElement E) (\<lambda>element. perform E (c element)) w = (Inr (), w1)"
      and p1: "pageResolves w1" and k1: "log w1 = log w"
        "objectDescriptor (hdl w1) = objectDescriptor (hdl w)" by blast
  from pressKey_runs [OF nr p1, of keyPress] obtain w2
    where s2: "pressKey E keyPress w1 = (Inr (), w2)" and k2: "log w2 = log w1"
        "objectDescriptor (hdl w2) = objectDescriptor (hdl w1)" by blast
  show ?thesis
    by (simp add: thn_unfold s1 s2 bnd_this logger_info_def Let_def
        clearFullCssAndXPath_run k1 k2)
qed

lemma type_emits:
  assumes nr: "\<forall>c. e_raises E c = None" and pr: "pageResolves w"
  shows "log (snd (type E inputString delay keyPress w))
       = log w @ [objectDescriptor (hdl w) @ '' - typed the value: '' @ maskedValue (hdl w) inputString]"
  using entry_emits [OF nr pr,
      where c = "\<lambda>element. TypeText element inputString (if delay \<noteq> None then Some 0 else delay)"
        and msg = "\<lambda>d. '' - typed the value: ''
            @ (if str_includes (toLowerCase d) ''password'' then ''******'' else inputString)"
        and keyPress = keyPress]
  by (simp add: type_def Let_def maskedValue_def)

lemma pressSequentially_emits:
  assumes nr: "\<forall>c. e_raises E c = None" and pr: "pageResolves w"
  shows "log (snd (pressSequentially E inputString delay keyPress w))
       = log w @ [objectDescriptor (hdl w) @ '' - pressed sequentially: ''
            @ maskedValue (hdl w) inputString]"
  using entry_emits [OF nr pr,
      where c = "\<lambda>element. PressSequentially element inputString
          (if delay \<noteq> None then Some 0 else delay)"
        and msg = "\<lambda>d. '' - pressed sequentially: ''
            @ (if str_includes (toLowerCase d) ''password'' then ''******'' else inputString)"
        and keyPress = keyPress]
  by (simp add: pressSequentially_def Let_def maskedValue_def)

text \<open>
  C8. A run of \<open>setValue\<close>, \<open>type\<close> or \<open>pressSequentially\<close> logs nothing (when a call
  raised before the logging) or one line. When no call raises and the page of the
  handle resolves, the line is logged: it is the description, the words of the
  action and, when the description contains \<open>password\<close> in any case, the marker
  \<open>******\<close>, otherwise the value entered. With \<open>password\<close> in the description two
  such runs that differ in the value only leave the same log.
\<close>

theorem C8_password_value_is_masked:
  "(let desc = objectDescriptor (hdl w);
        shown = (\<lambda>v. if str_includes (toLowerCase desc) ''password'' then ''******'' else v)
    in (log (snd (setValue E inputString keyPress force w))
          \<in> {log w, log w @ [desc @ '' - set the value: '' @ shown inputString]}
        \<and> log (snd (type E inputString delay keyPress w))
          \<in> {log w, log w @ [desc @ '' - typed the value: '' @ shown inputString]}
        \<and> log (snd (pressSequentially E inputString delay keyPress w))
          \<in> {log w, log w @ [desc @ '' - pressed sequentially: '' @ shown inputString]})
       \<and> ((\<forall>c. e_raises E c = None) \<and> pageResolves w \<longrightarrow>
            log (snd (setValue E inputString keyPress force w))
              = log w @ [desc @ '' - set the value: '' @ shown inputString]
            \<and> log (snd (type E inputString delay keyPress w))
              = log w @ [desc @ '' - typed the value: '' @ shown inputString]
            \<and> log (snd (pressSequentially E inputString delay keyPress w))
              = log w @ [desc @ '' - pressed sequentially: '' @ shown inputString]
            \<and> (str_includes (toLowerCase desc) ''password'' \<longrightarrow>
                 log (snd (setValue E other keyPress force w))
                   = log (snd (setValue E inputString keyPress force w))
                 \<and> log (snd (type E other delay keyPress w))
                   = log (snd (type E inputString delay keyPress w))
                 \<and> log (snd (pressSequentially E other delay keyPress w))
                   = log (snd (pressSequentially E inputString delay keyPress w)))))"
proof -
  have any: "log (snd (setValue E inputString keyPress force w))
          \<in> {log w, log w @ [objectDescriptor (hdl w) @ '' - set the value: ''
                @ maskedValue (hdl w) inputString]}
        \<and> log (snd (type E inputString delay keyPress w))
          \<in> {log w, log w @ [objectDescriptor (hdl w) @ '' - typed the value: ''
                @ maskedValue (hdl w) inputString]}
        \<and> log (snd (pressSequentially E inputString delay keyPress w))
          \<in> {log w, log w @ [objectDescriptor (hdl w) @ '' - pressed sequentially: ''
                @ maskedValue (hdl w) inputString]}"
    using setValue_log [of E inputString keyPress force w]
      type_log [of E inputString delay keyPress w]
      pressSequentially_log [of E inputString delay keyPress w]
    by blast
  have run: "log (snd (setValue E v keyPress force w))
              = log w @ [objectDescriptor (hdl w) @ '' - set the value: '' @ maskedValue (hdl w) v]
            \<and> log (snd (type E v delay keyPress w))
              = log w @ [objectDescriptor (hdl w) @ '' - typed the value: '' @ maskedValue (hdl w) v]
            \<and> log (snd (pressSequentially E v delay keyPress w))
              = log w @ [objectDescriptor (hdl w) @ '' - pressed sequentially: ''
                  @ maskedValue (hdl w) v]"
    if "\<forall>c. e_raises E c = None" and "pageResolves w" for v
    using setValue_emits [OF that] type_emits [OF that] pressSequentially_emits [OF that]
    by blast
  have masked: "maskedValue (hdl w) other = maskedValue (hdl w) inputString"
    if "str_includes (toLowerCase (objectDescriptor (hdl w))) ''password''"
    using that by (simp add: maskedValue_def)
  have shown: "maskedValue (hdl w) v
      = (if str_includes (toLowerCase (objectDescriptor (hdl w))) ''password'' then ''******'' else v)"
    for v by (simp add: maskedValue_def)
  show ?thesis
    unfolding Let_def shown [symmetric]
    using any run [of inputString] run [of other] masked
    by (simp only:) metis
qed

text \<open>
  On a page where no call raises, runs of each of the three actions on a handle
  described as \<open>Login PassWord field\<close> log the masked line, two runs with different
  values leave the same log, and runs on a handle described as \<open>user name\<close> log the
  value.
\<close>

theorem C8_password_value_witness:
  "(let E = pageEngine 1 [] [] 0 None;
        w = startWorld (UiElement ''#pw'' (Some ''Login PassWord field'') None None);
        u = startWorld (UiElement ''#user'' (Some ''user name'') None None)
    in (\<forall>c. e_raises E c = None) \<and> pageResolves w \<and> pageResolves u
       \<and> str_includes (toLowerCase (objectDescriptor (hdl w))) ''password''
       \<and> log (snd (setValue E ''hunter2'' None None w)) = [''Login PassWord field - set the value: ******'']
       \<and> log (snd (setValue E ''letmein'' None None w)) = log (snd (setValue E ''hunter2'' None None w))
       \<and> log (snd (type E ''hunter2'' None None w)) = [''Login PassWord field - typed the value: ******'']
       \<and> log (snd (pressSequentially E ''hunter2'' None None w))
            = [''Login PassWord field - pressed sequentially: ******'']
       \<and> log (snd (pressSequentially E ''letmein'' None None w))
            = log (snd (pressSequentially E ''hunter2'' None None w))
       \<and> log (snd (setValue E ''alice'' None None u)) = [''user name - set the value: alice'']
       \<and> log (snd (type E ''alice'' None None u)) = [''user name - typed the value: alice'']
       \<and> log (snd (pressSequentially E ''alice'' None None u))
            = [''user name - pressed sequentially: alice''])"
proof -
  define E where "E = pageEngine 1 [] [] 0 None"
  define w where "w = startWorld (UiElement ''#pw'' (Some ''Login PassWord field'') None None)"
  define u where "u = startWorld (UiElement ''#user'' (Some ''user name'') None None)"
  have nr: "\<forall>c. e_raises E c = None" by (simp add: E_def pageEngine_def)
  have pw: "pageResolves w" unfolding w_def by code_simp
  have pu: "pageResolves u" unfolding u_def by code_simp
  have inc: "str_includes (toLowerCase (objectDescriptor (hdl w))) ''password''"
    unfolding w_def by code_simp
  have exc: "\<not> str_includes (toLowerCase (objectDescriptor (hdl u))) ''password''"
    unfolding u_def by code_simp
  have dw: "objectDescriptor (hdl w) = ''Login PassWord field''" "log w = []"
    unfolding w_def by code_simp+
  have du: "objectDescriptor (hdl u) = ''user name''" "log u = []"
    unfolding u_def by code_simp+
  from C8_password_value_is_masked [of w E "''hunter2''" None None None "''letmein''"] nr pw inc dw
  have a: "log (snd (setValue E ''hunter2'' None None w)) = [''Login PassWord field - set the value: ******'']
       \<and> log (snd (setValue E ''letmein'' None None w)) = log (snd (setValue E ''hunter2'' None None w))
       \<and> log (snd (type E ''hunter2'' None None w)) = [''Login PassWord field - typed the value: ******'']
       \<and> log (snd (pressSequentially E ''hunter2'' None None w))
            = [''Login PassWord field - pressed sequentially: ******'']
       \<and> log (snd (pressSequentially E ''letmein'' None None w))
            = log (snd (pressSequentially E ''hunter2'' None None w))"
    by (simp add: Let_def)
  from C8_password_value_is_masked [of u E "''alice''" None None None "''bob''"] nr pu exc du
  have b: "log (snd (setValue E ''alice'' None None u)) = [''user name - set the value: alice'']
       \<and> log (snd (type E ''alice'' None None u)) = [''user name - typed the value: alice'']
       \<and> log (snd (pressSequentially E ''alice'' None None u))
            = [''user name - pressed sequentially: alice'']"
    by (simp add: Let_def)
  from a b nr pw pu inc show ?thesis
    unfolding Let_def E_def w_def u_def by blast
qed

section \<open>All matching rows\<close>

lemma foldl_collect:
  "foldl (\<lambda>found index. if P index then found @ [int index] else found) acc xs
     = acc @ map int (filter P xs)"
  by (induction xs arbitrary: acc) simp_all

lemma getMatchedRowIndices_result_filter:
  "getMatchedRowIndices_result rowValues exactMatch tableDatas =
     map int (filter (\<lambda>index. spec_rowMatches exactMatch (map normalizeQuoted rowValues)
                        (split newline (arrayToString (tableDatas ! index))))
                [0..<length tableDatas])"
  by (simp add: getMatchedRowIndices_result_def getMatchedRowIndices_rowMatches_def
      getMatchedRowIndices_flag_spec foldl_collect)

lemma sorted_map_int_filter: "sorted (map int (filter P [0..<n])) \<and> distinct (map int (filter P [0..<n]))"
  by (simp add: sorted_map sorted_wrt_filter distinct_map inj_on_def)

text \<open>
  Blanking the first matching row removes the first entry from the list of the
  matching positions, when the empty row does not match.
\<close>

lemma filter_blank_first:
  assumes ex: "list_ex P arr" and blank: "\<not> P []"
  shows "filter (\<lambda>j. P (arr ! j)) [0..<length arr]
     = nat (findIndex P arr)
       # filter (\<lambda>j. P (arr[nat (findIndex P arr) := []] ! j)) [0..<length arr]"
proof -
  let ?i = "nat (findIndex P arr)"
  from findIndex_first [OF ex]
  have i: "?i < length arr" and Pi: "P (arr ! ?i)" and before: "\<forall>j < ?i. \<not> P (arr ! j)"
    by blast+
  have split_upt: "[0..<length arr] = [0..<?i] @ ?i # [Suc ?i..<length arr]"
    using i by (metis le0 upt_add_eq_append upt_conv_Cons le_add_diff_inverse less_imp_le_nat)
  have l: "filter (\<lambda>j. P (arr ! j)) [0..<?i] = []"
    using before by (simp add: filter_empty_conv)
  have l': "filter (\<lambda>j. P (arr[?i := []] ! j)) [0..<?i] = []"
    using before by (simp add: filter_empty_conv)
  have r: "filter (\<lambda>j. P (arr[?i := []] ! j)) [Suc ?i..<length arr]
      = filter (\<lambda>j. P (arr ! j)) [Suc ?i..<length arr]"
    by (rule filter_cong) auto
  have "filter (\<lambda>j. P (arr ! j)) [0..<length arr]
      = ?i # filter (\<lambda>j. P (arr ! j)) [Suc ?i..<length arr]"
    by (subst split_upt) (simp add: l Pi)
  moreover have "filter (\<lambda>j. P (arr[?i := []] ! j)) [0..<length arr]
      = filter (\<lambda>j. P (arr ! j)) [Suc ?i..<length arr]"
    by (subst split_upt) (simp add: l' r i blank)
  ultimately show ?thesis by simp
qed

lemma getMetaTableMatchedRowIndices_search_filter:
  assumes blank: "\<not> P []"
  shows "length (filter (\<lambda>j. P (arr ! j)) [0..<length arr]) \<le> n \<Longrightarrow>
     getMetaTableMatchedRowIndices_search n P arr found
       = found @ map int (filter (\<lambda>j. P (arr ! j)) [0..<length arr])"
proof (induction n arbitrary: arr found)
  case 0
  then show ?case by simp
next
  case (Suc n)
  show ?case
  proof (cases "list_ex P arr")
    case True
    let ?i = "nat (findIndex P arr)"
    from True have nn: "0 \<le> findIndex P arr" by (simp add: findIndex_nonneg_iff)
    note fb = filter_blank_first [OF True blank]
    from Suc.prems fb
    have "length (filter (\<lambda>j. P (arr[?i := []] ! j)) [0..<length (arr[?i := []])]) \<le> n"
      by simp
    from Suc.IH [OF this, of "found @ [findIndex P arr]"] nn fb show ?thesis
      by (simp add: Let_def)
  next
    case False
    then have none: "findIndex P arr = - 1" by (rule findIndex_none)
    from False have e: "filter (\<lambda>j. P (arr ! j)) [0..<length arr] = []"
      by (auto simp: filter_empty_conv list_ex_iff)
    with Suc.IH [of arr found] none show ?thesis by (simp add: Let_def)
  qed
qed

lemma getIndex_rowMatches_blank: "rowValues \<noteq> [] \<Longrightarrow> \<not> getIndex_rowMatches exactMatch rowValues []"
  by (cases rowValues) simp_all

text \<open>
  C4 (the code departs from the claim). On one table with the three rows of the
  scenario the handle matches one element and the table has three rows. The loop of
  \<open>getMatchedRowIndices(["30"])\<close> runs to the number of elements that the handle
  matches, reads the first row only and returns no position. On a handle that matches
  three elements the three rows are read and the positions returned are \<open>1\<close> and
  \<open>2\<close>: the header row of one cell is not left out. The positions after the filter
  are \<open>0\<close> and \<open>1\<close>, and \<open>getMatchedRowIndex\<close>, which counts the rows and leaves
  the header out, finds the row \<open>Alice\<close>, \<open>30\<close> in exact mode at position \<open>0\<close>.
\<close>

theorem C4_getMatchedRowIndices_misses_rows_and_filter:
  "(let one = pageEngine 1 scenarioRows [] 0 None;
        three = pageEngine 3 scenarioRows [] 0 None;
        w = startWorld (UiElement ''table'' None None None)
    in e_count one (PageLocator 0 ''table'') = 1
       \<and> e_count one (Locator (PageLocator 0 ''table'') ''tr'') = 3
       \<and> fst (getMatchedRowIndices one [''30''] None None w) = Inr []
       \<and> fst (getMatchedRowIndices one [''30''] None (Some True) w) = Inr []
       \<and> fst (getMatchedRowIndices three [''30''] None None w) = Inr [1, 2]
       \<and> spec_getMatchedRowIndices [''30''] False (map (\<lambda>t. [t]) scenarioRows) = [0, 1]
       \<and> spec_getMatchedRowIndices [''30''] True (map (\<lambda>t. [t]) scenarioRows) = [0, 1]
       \<and> fst (getMatchedRowIndex one [''30''] None (Some True) w) = Inr 0)"
  by code_simp

text \<open>
  What the scan returns on the rows that were read: in ascending order and without
  repetition, the indices of the reads whose row has, for every target value, a cell
  equal to it (exact mode) or containing it (substring mode); no row is left out.
  For a list of target values that is not empty, the search of
  \<open>getMetaTableMatchedRowIndices\<close> returns the same for the positions among the rows
  of more than \<open>minColumnSize\<close> cells.
\<close>

lemma getMatchedRowIndices_result_positions:
  "getMatchedRowIndices_result rowValues exactMatch tableDatas =
     map int (filter (\<lambda>index. spec_rowMatches exactMatch (map normalizeQuoted rowValues)
                        (split newline (arrayToString (tableDatas ! index))))
                [0..<length tableDatas])
   \<and> sorted (getMatchedRowIndices_result rowValues exactMatch tableDatas)
   \<and> distinct (getMatchedRowIndices_result rowValues exactMatch tableDatas)
   \<and> (rowValues \<noteq> [] \<longrightarrow>
        (let arr = filter (\<lambda>arrTds. int (length arrTds) > minColumnSize) (map (map trim) rowCells)
         in getMetaTableMatchedRowIndices_result rowValues exactMatch minColumnSize rowCells
              = map int (filter (\<lambda>index. spec_rowMatches exactMatch rowValues (arr ! index))
                           [0..<length arr])))"
proof -
  have meta: "getMetaTableMatchedRowIndices_search (length arr) (getIndex_rowMatches exactMatch rowValues) arr []
      = map int (filter (\<lambda>index. spec_rowMatches exactMatch rowValues (arr ! index)) [0..<length arr])"
    if "rowValues \<noteq> []" for arr
  proof -
    from that have "\<not> getIndex_rowMatches exactMatch rowValues []"
      by (rule getIndex_rowMatches_blank)
    moreover have "length (filter (\<lambda>j. getIndex_rowMatches exactMatch rowValues (arr ! j))
        [0..<length arr]) \<le> length arr"
      using length_filter_le [of _ "[0..<length arr]"] by simp
    ultimately show ?thesis
      using getMetaTableMatchedRowIndices_search_filter
        [of "getIndex_rowMatches exactMatch rowValues" arr "length arr" "[]"]
      by (simp add: getIndex_rowMatches_spec)
  qed
  show ?thesis
    unfolding getMatchedRowIndices_result_filter
    using sorted_map_int_filter meta
    by (simp add: getMetaTableMatchedRowIndices_result_def Let_def)
qed

lemma getMatchedRowIndices_result_examples:
  "[''30''] \<noteq> ([] :: string list)
   \<and> getMatchedRowIndices_result [''30''] False (map (\<lambda>t. [t]) scenarioRows) = [1, 2]
   \<and> getMetaTableMatchedRowIndices_result [''30''] False 1 [[''Name''], [''Alice'', ''30''], [''Bob'', '' 30 '']]
       = [0, 1]"
proof -
  have a: "map int (filter (\<lambda>index. spec_rowMatches False (map normalizeQuoted [''30''])
                        (split newline (arrayToString (map (\<lambda>t. [t]) scenarioRows ! index))))
                [0..<length (map (\<lambda>t. [t]) scenarioRows)]) = [1, 2]"
    by code_simp
  have b: "(let arr = filter (\<lambda>arrTds. int (length arrTds) > 1)
                 (map (map trim) [[''Name''], [''Alice'', ''30''], [''Bob'', '' 30 '']])
         in map int (filter (\<lambda>index. spec_rowMatches False [''30''] (arr ! index)) [0..<length arr]))
       = [0, 1]"
    by code_simp
  from getMatchedRowIndices_result_positions [of "[''30'']" False "map (\<lambda>t. [t]) scenarioRows" 1
      "[[''Name''], [''Alice'', ''30''], [''Bob'', '' 30 '']]"] a b
  show ?thesis by (simp add: Let_def)
qed

text \<open>
  With an empty list of target values the blanked row matches again, and
  \<open>getMetaTableMatchedRowIndices\<close> returns the position \<open>0\<close> once for every row.
\<close>

lemma getMetaTableMatchedRowIndices_no_targets:
  "getMetaTableMatchedRowIndices_result [] False 1 [[''Name''], [''Alice'', ''30''], [''Bob'', ''30'']] = [0, 0]"
  by code_simp

section \<open>Fan-out\<close>

lemma pushAll_undefined:
  "tempLocators (hdl w) = None \<Longrightarrow> pushAll ls w = (Inr u, w') \<Longrightarrow> w' = w"
  by (cases ls) (simp_all add: ret_def bnd_def this_def throw_def)

lemma pushAll_defined:
  "tempLocators (hdl w) = Some buf \<Longrightarrow>
     pushAll ls w = (Inr (), w\<lparr>hdl := (hdl w)\<lparr>tempLocators := Some (buf @ ls)\<rparr>\<rparr>)"
proof (induction ls arbitrary: buf w)
  case Nil
  then show ?case by (simp add: ret_def)
next
  case (Cons l ls)
  have "tempLocators (hdl (w\<lparr>hdl := (hdl w)\<lparr>tempLocators := Some (buf @ [l])\<rparr>\<rparr>)) = Some (buf @ [l])"
    by simp
  from Cons.IH [OF this] Cons.prems show ?case
    by (simp add: bnd_def thn_def this_def assign_def)
qed

lemma mapM_length: "mapM f xs w = (Inr ys, w') \<Longrightarrow> length ys = length xs"
proof (induction xs arbitrary: ys w w')
  case Nil
  then show ?case by (simp add: ret_def)
next
  case (Cons x xs)
  from Cons.prems obtain y w1 zs w2 where "mapM f xs w1 = (Inr zs, w2)" and "ys = y # zs"
    by (auto simp: ret_def dest!: bnd_Inr)
  with Cons.IH show ?case by auto
qed

lemma keeps_mapM: "(\<And>x. keeps p (f x)) \<Longrightarrow> keeps p (mapM f xs)"
  by (induction xs) (auto intro!: keeps_bnd keeps_ret)

lemma keeps_tempLocators_getElement: "keeps (\<lambda>w. tempLocators (hdl w)) (getElement E)"
  by (intro keeps_getElement) simp_all

lemma keeps_tempLocators_allOf: "keeps (\<lambda>w. tempLocators (hdl w)) (allOf E l)"
  unfolding allOf_def by (intro keeps_thn keeps_perform keeps_ret) simp

text \<open>
  On a handle as the constructor leaves it \<open>getAllObjects\<close> never returns; on a handle
  whose buffer holds \<open>buf\<close> it returns one handle for every entry of the buffer and
  one for every match, and leaves the matches in the buffer.
\<close>

lemma getAllObjects_collect:
  assumes "getAllObjects E hasTxt w = (Inr hs, w')"
  shows "\<exists>buf l. tempLocators (hdl w) = Some buf
           \<and> tempLocators (hdl w') = Some (buf @ e_all E l)
           \<and> length hs = length buf + length (e_all E l)"
proof -
  from assms obtain u w1 where
    first: "(case hasTxt of
            None \<Rightarrow>
              bnd (getElement E) (\<lambda>element. bnd thisPage (\<lambda>p. bnd this (\<lambda>h.
                bnd (allOf E (LocatorHas element '':scope'' (PageLocator p (locator h)))) pushAll)))
          | Some t \<Rightarrow>
              bnd (getElement E) (\<lambda>element. bnd this (\<lambda>h.
                bnd (allOf E (LocatorHasText element (locator h) t)) pushAll))) w = (Inr u, w1)"
    and second: "bnd this (\<lambda>h. case tempLocators h of
          None \<Rightarrow> throw (TypeError ''this.tempLocators is undefined'')
        | Some locs \<Rightarrow>
            mapM (\<lambda>(l, index).
                    thn (perform E (CssPath l))
                        (ret (UiElement (e_cssPath E l)
                                (Some (objectDescriptor h @ '' ['' @ showNat index @ '']'')) None None)))
                 (zip locs [0..<length locs])) w1 = (Inr hs, w')"
    unfolding getAllObjects_def by (auto dest!: thn_Inr)
  from first obtain w2 l where push: "pushAll (e_all E l) w2 = (Inr u, w1)"
    and same: "tempLocators (hdl w2) = tempLocators (hdl w)"
    by (cases hasTxt)
      (auto simp: thisPage_def this_def throw_def ret_def allOf_def perform_def
        dest!: bnd_Inr thn_Inr keepsD [OF keeps_tempLocators_getElement]
        split: option.splits)
  from second obtain locs where locs: "tempLocators (hdl w1) = Some locs"
    and run: "mapM (\<lambda>(l, index).
                    thn (perform E (CssPath l))
                        (ret (UiElement (e_cssPath E l)
                                (Some (objectDescriptor (hdl w1) @ '' ['' @ showNat index @ '']'')) None None)))
                 (zip locs [0..<length locs]) w1 = (Inr hs, w')"
    by (auto simp: this_def throw_def bnd_def split: option.splits)
  have "keeps (\<lambda>w. tempLocators (hdl w)) (mapM (\<lambda>(l, index).
                    thn (perform E (CssPath l))
                        (ret (UiElement (e_cssPath E l)
                                (Some (objectDescriptor (hdl w1) @ '' ['' @ showNat index @ '']'')) None None)))
                 (zip locs [0..<length locs]))"
    by (rule keeps_mapM) (auto intro!: keeps_thn keeps_perform keeps_ret)
  from keepsD [OF this run] have keepM: "tempLocators (hdl w') = tempLocators (hdl w1)" .
  from mapM_length [OF run] have len: "length hs = length locs" by simp
  show ?thesis
  proof (cases "tempLocators (hdl w2)")
    case None
    from pushAll_undefined [OF None push] None locs show ?thesis by simp
  next
    case (Some buf)
    from pushAll_defined [OF Some, of "e_all E l"] push
    have "w1 = w2\<lparr>hdl := (hdl w2)\<lparr>tempLocators := Some (buf @ e_all E l)\<rparr>\<rparr>" by simp
    with locs have "locs = buf @ e_all E l" by simp
    with Some same len locs keepM show ?thesis by auto
  qed
qed

lemma getAllObjects_fresh_never_returns:
  "tempLocators (hdl w) = None \<Longrightarrow> fst (getAllObjects E hasTxt w) \<noteq> Inr hs"
proof
  assume none: "tempLocators (hdl w) = None" and "fst (getAllObjects E hasTxt w) = Inr hs"
  then obtain w' where "getAllObjects E hasTxt w = (Inr hs, w')"
    by (cases "getAllObjects E hasTxt w") auto
  from getAllObjects_collect [OF this] none show False by auto
qed

text \<open>
  C7 (the code departs from the claim). On a scope of four matches \<open>getAllObjects\<close>
  raises on a handle as the constructor leaves it, because \<open>this.tempLocators\<close> is
  \<open>undefined\<close>. On a handle whose buffer is the empty array the first call returns
  four handles and leaves the four matches in the buffer, and the second call returns
  eight handles, with the descriptions \<open>items [0]\<close> to \<open>items [7]\<close>.
\<close>

theorem C7_getAllObjects_raises_or_accumulates:
  "(let E = pageEngine 1 [] [] 4 None;
        h = UiElement ''#list li'' (Some ''items'') None None;
        r0 = getAllObjects E None (startWorld h);
        r1 = getAllObjects E None (startWorld (h\<lparr>tempLocators := Some []\<rparr>));
        r2 = getAllObjects E None (snd r1)
    in length (e_all E (LocatorHas (PageLocator 0 ''#list li'') '':scope'' (PageLocator 0 ''#list li''))) = 4
       \<and> fst r0 = Inl (TypeError ''this.tempLocators is undefined'')
       \<and> map_sum id (map objectDescriptor) (fst r1)
           = Inr [''items [0]'', ''items [1]'', ''items [2]'', ''items [3]'']
       \<and> map_sum id (map objectDescriptor) (fst r2)
           = Inr [''items [0]'', ''items [1]'', ''items [2]'', ''items [3]'',
                  ''items [4]'', ''items [5]'', ''items [6]'', ''items [7]''])"
  by code_simp

section \<open>Existence and counts\<close>

lemma isExist_result:
  "isExist E w = (Inr b, w') \<Longrightarrow>
     \<exists>p. page (hdl w') = Some p \<and> b = e_query E p (locator (hdl w'))
       \<and> fullCss (hdl w') = locator (hdl w') \<and> fullXpath (hdl w') = Some []"
  by (auto simp: isExist_def querySelector_def getLocator_def thisPage_def throw_def
      clearFullCssAndXPath_run this_def ret_def perform_def
      dest!: bnd_Inr thn_Inr split: option.splits)

text \<open>
  When the existence check of \<open>getRowsLength\<close> says no, the result is \<open>0\<close> and no
  call is made after the check.
\<close>

lemma getRowsLength_absent:
  "isExist E w = (Inr False, w1) \<Longrightarrow>
     fst (getRowsLength E loc w) = Inr 0 \<and> trace (snd (getRowsLength E loc w)) = trace w1"
  by (simp add: getRowsLength_def Let_def bnd_def thn_def ret_def clearFullCssAndXPath_run)

text \<open>
  C9 (the code departs from the claim). On a page where the selector of the handle
  matches nothing and no call raises, \<open>isExist\<close> returns false and \<open>getRowsLength\<close>
  returns \<open>0\<close> without counting, but \<open>getCount\<close> raises a \<open>TypeError\<close> after the engine
  has counted \<open>0\<close>.
\<close>

theorem C9_getCount_raises_on_zero_matches:
  "(let E = pageEngine 0 [''a'' @ [newline] @ ''b''] [] 0 None;
        w = startWorld (UiElement ''#missing'' None None None)
    in e_count E (PageLocator 0 ''#missing'') = 0
       \<and> fst (isExist E w) = Inr False
       \<and> fst (getRowsLength E None w) = Inr 0
       \<and> filter (\<lambda>c. case c of Count _ \<Rightarrow> True | _ \<Rightarrow> False) (trace (snd (getRowsLength E None w))) = []
       \<and> fst (getCount E w) = Inl (TypeError ''this.clearFullCssAndXpath is not a function'')
       \<and> filter (\<lambda>c. case c of Count _ \<Rightarrow> True | _ \<Rightarrow> False) (trace (snd (getCount E w)))
            = [Count (PageLocator 0 ''#missing'')])"
  by code_simp

section \<open>The table methods return the results of their bodies\<close>

lemma getHeaderColumnNumber_returns:
  "getHeaderColumnNumber E colName exactMatch w = (Inr r, w') \<Longrightarrow>
     \<exists>element. r = getHeaderColumnNumber_result (e_allInnerTexts E (Locator element ''th'')) colName
                     (case exactMatch of None \<Rightarrow> False | Some b \<Rightarrow> b)"
  by (auto simp: getHeaderColumnNumber_def allInnerTextsOf_def ret_def
      dest!: bnd_Inr thn_Inr)

lemma getMatchedRowIndex_returns:
  "getMatchedRowIndex E rowValues loc exactMatch w = (Inr r, w') \<Longrightarrow>
     \<exists>tableDatas. r = getMatchedRowIndex_result rowValues
                        (case exactMatch of None \<Rightarrow> False | Some b \<Rightarrow> b) tableDatas"
  by (auto simp: getMatchedRowIndex_def Let_def ret_def dest!: bnd_Inr thn_Inr)

lemma getMetaTableMatchedRowIndex_returns:
  "getMetaTableMatchedRowIndex E rowValues loc exactMatch w = (Inr r, w') \<Longrightarrow>
     \<exists>tableDatas. r = getMetaTableMatchedRowIndex_result rowValues
                        (case exactMatch of None \<Rightarrow> False | Some b \<Rightarrow> b) tableDatas"
  by (auto simp: getMetaTableMatchedRowIndex_def Let_def ret_def dest!: bnd_Inr thn_Inr)

text \<open>
  The rows that \<open>getMatchedRowIndices\<close> reads are as many as the elements that the
  handle itself matches.
\<close>

lemma getMatchedRowIndices_returns:
  "getMatchedRowIndices E rowValues loc exactMatch w = (Inr r, w') \<Longrightarrow>
     \<exists>element tableDatas. length tableDatas = e_count E element
        \<and> r = getMatchedRowIndices_result rowValues
                 (case exactMatch of None \<Rightarrow> False | Some b \<Rightarrow> b) tableDatas"
  by (auto simp: getMatchedRowIndices_def Let_def ret_def countOf_def
      dest!: bnd_Inr thn_Inr mapM_length; blast)

lemma getMetaTableMatchedRowIndices_returns:
  "getMetaTableMatchedRowIndices E rowValues loc exactMatch minColumnSize w = (Inr r, w') \<Longrightarrow>
     \<exists>rowCells. r = getMetaTableMatchedRowIndices_result rowValues
                      (case exactMatch of None \<Rightarrow> False | Some b \<Rightarrow> b)
                      (case minColumnSize of None \<Rightarrow> 1 | Some n \<Rightarrow> n) rowCells"
  by (auto simp: getMetaTableMatchedRowIndices_def Let_def ret_def dest!: bnd_Inr thn_Inr)

end
